theory Spec2Isabelle
  imports Main
begin

section \<open>JavaScript strings and arrays\<close>

text \<open>
  A JavaScript string is modelled as a \<^typ>\<open>string\<close>: the list of its code units, so that
  \<open>.length\<close> is \<^const>\<open>length\<close>. Numbers that the program uses as sizes, caps and
  budgets are integers (\<^typ>\<open>int\<close>); they are parsed with \<open>Number.parseInt\<close> by the
  caller. A \<^typ>\<open>char\<close> stands for a code unit below 256; strings with other code units
  are outside the model.
\<close>

abbreviation LF :: char where
  "LF \<equiv> CHR 0x0A"

abbreviation TAB :: char where
  "TAB \<equiv> CHR 0x09"

abbreviation CR :: char where
  "CR \<equiv> CHR 0x0D"

text \<open>\<open>s.startsWith(p)\<close>\<close>

definition startsWith :: "string \<Rightarrow> string \<Rightarrow> bool" where
  "startsWith s p = (take (length p) s = p)"

text \<open>\<open>s.includes(p)\<close>\<close>

fun includes_str :: "string \<Rightarrow> string \<Rightarrow> bool" where
  "includes_str [] p = (p = [])"
| "includes_str (c # cs) p = (startsWith (c # cs) p \<or> includes_str cs p)"

text \<open>\<open>parts.join(sep)\<close>\<close>

fun join :: "string \<Rightarrow> string list \<Rightarrow> string" where
  "join sep [] = []"
| "join sep [x] = x"
| "join sep (x # y # ys) = x @ sep @ join sep (y # ys)"

text \<open>
  \<open>s.split(sep)\<close> for a non-empty separator: the parts between the occurrences of
  \<open>sep\<close>, found from the left. The empty string splits into one empty part.
\<close>

fun splitOn :: "string \<Rightarrow> string \<Rightarrow> string list" where
  "splitOn sep [] = [[]]"
| "splitOn sep (c # cs) =
     (if sep \<noteq> [] \<and> startsWith (c # cs) sep
      then [] # splitOn sep (drop (length sep - 1) cs)
      else (case splitOn sep cs of
              [] \<Rightarrow> [[c]]
            | p # ps \<Rightarrow> (c # p) # ps))"

text \<open>
  \<open>s.trim()\<close> and \<open>s.trimEnd()\<close>: the white space and line terminators of
  ECMAScript among the code units below 256.
\<close>

definition isJsSpace :: "char \<Rightarrow> bool" where
  "isJsSpace c = (c \<in> set [CHR 0x09, CHR 0x0A, CHR 0x0B, CHR 0x0C, CHR 0x0D, CHR 0x20, CHR 0xA0])"

definition trimStart :: "string \<Rightarrow> string" where
  "trimStart s = dropWhile isJsSpace s"

definition trimEnd :: "string \<Rightarrow> string" where
  "trimEnd s = rev (dropWhile isJsSpace (rev s))"

definition trim :: "string \<Rightarrow> string" where
  "trim s = trimEnd (trimStart s)"

text \<open>
  \<open>xs.slice(start, end)\<close> on a string or an array: a negative index counts from the
  end, and both indices are clamped to the length.
\<close>

definition js_slice :: "'a list \<Rightarrow> int \<Rightarrow> int \<Rightarrow> 'a list" where
  "js_slice xs s e =
     (let n = int (length xs);
          k = (if s < 0 then max (n + s) 0 else min s n);
          f = (if e < 0 then max (n + e) 0 else min e n)
      in take (nat (f - k)) (drop (nat k) xs))"

text \<open>\<open>xs.slice(start)\<close>: to the end.\<close>

definition js_slice_from :: "'a list \<Rightarrow> int \<Rightarrow> 'a list" where
  "js_slice_from xs s = js_slice xs s (int (length xs))"

text \<open>\<open>xs.indexOf(x)\<close>: the first index of \<open>x\<close>, or \<open>-1\<close>.\<close>

fun indexOf :: "'a list \<Rightarrow> 'a \<Rightarrow> int" where
  "indexOf [] x = -1"
| "indexOf (y # ys) x =
     (if y = x then 0
      else (let i = indexOf ys x in if i = -1 then -1 else i + 1))"

text \<open>A number inside a template string: its decimal digits.\<close>

function showNat :: "nat \<Rightarrow> string" where
  "showNat n =
     (if n < 10 then [''0123456789'' ! n]
      else showNat (n div 10) @ [''0123456789'' ! (n mod 10)])"
  by pat_completeness auto
termination
  by (relation "measure (\<lambda>n. n)") auto

declare showNat.simps [simp del]

definition showInt :: "int \<Rightarrow> string" where
  "showInt i = (if i < 0 then ''-'' @ showNat (nat (- i)) else showNat (nat i))"

text \<open>\<open>s.lastIndexOf(c)\<close>: the last index of \<open>c\<close>, or \<open>-1\<close>.\<close>

definition lastIndexOf :: "'a list \<Rightarrow> 'a \<Rightarrow> int" where
  "lastIndexOf xs x =
     (let i = indexOf (rev xs) x in if i = -1 then -1 else int (length xs) - 1 - i)"

text \<open>
  \<open>s.toLowerCase()\<close> on code units below 256: the ASCII capitals and the Latin-1
  capitals (all of \<open>0xC0\<close> to \<open>0xDE\<close> but the multiplication sign) move up by 32.
\<close>

definition lowerChar :: "char \<Rightarrow> char" where
  "lowerChar c =
     (let n = (of_char c :: nat)
      in if (65 \<le> n \<and> n \<le> 90) \<or> (192 \<le> n \<and> n \<le> 222 \<and> n \<noteq> 215)
         then char_of (n + 32) else c)"

definition toLowerCase :: "string \<Rightarrow> string" where
  "toLowerCase s = map lowerChar s"

section \<open>The version-control tool and the logger\<close>

text \<open>
  \<open>execFileSync("git", args)\<close> is the program's only view of the repository. It is a
  parameter of the model: for each argument list either the standard output
  (\<open>Inr\<close>) or a failure with its diagnostic text (\<open>Inl\<close>: the joined
  \<open>stderr\<close>, \<open>stdout\<close> and \<open>message\<close> of the exception).
\<close>

type_synonym git = "string list \<Rightarrow> string + string"

datatype error = Error string

datatype log_entry = Info string | Warning string

text \<open>
  \<open>runGit(args, {allowFailure, trim})\<close>: the output with its trailing white space
  removed unless \<open>trim\<close> is false; a failure is the empty string when it is allowed and
  a thrown \<open>Error\<close> otherwise.
\<close>

definition runGit :: "git \<Rightarrow> string list \<Rightarrow> bool \<Rightarrow> bool \<Rightarrow> error + string" where
  "runGit git args allowFailure trimOutput =
     (case git args of
        Inr output \<Rightarrow> Inr (if trimOutput then trimEnd output else output)
      | Inl details \<Rightarrow>
          if allowFailure then Inr []
          else Inl (Error (''git '' @ join '' '' args @ '' failed: '' @ details)))"

section \<open>Tag resolver\<close>

definition listTags :: "git \<Rightarrow> string list" where
  "listTags git =
     (case runGit git
             [''for-each-ref'', ''--sort=-creatordate'', ''--format=%(refname:short)'', ''refs/tags'']
             True True of
        Inl e \<Rightarrow> []
      | Inr output \<Rightarrow>
          if output = [] then []
          else filter (\<lambda>tag. tag \<noteq> []) (map trim (splitOn [LF] output)))"

text \<open>
  \<open>resolvePreviousTag(currentTag, override, logger)\<close>. The result is the thrown error
  or the returned tag (the empty string when there is no previous tag), together with
  what was logged.
\<close>

definition resolvePreviousTag ::
  "git \<Rightarrow> string \<Rightarrow> string \<Rightarrow> (error + string) \<times> log_entry list" where
  "resolvePreviousTag git currentTag override =
     (if override \<noteq> [] then
        (case runGit git [''rev-parse'', ''-q'', ''--verify'', ''refs/tags/'' @ override]
                True True of
           Inl e \<Rightarrow> (Inl e, [])
         | Inr overrideExists \<Rightarrow>
             if overrideExists = [] then
               (Inl (Error (''Override previous tag '' @ override @
                            '' not found. Ensure tags are fetched.'')), [])
             else (Inr override, []))
      else
        (let tags = listTags git in
         if tags = [] then
           (Inl (Error ''No tags found locally. Ensure actions/checkout uses fetch-depth: 0.''), [])
         else
           (let index = indexOf tags currentTag in
            if index = -1 then
              (Inl (Error (''Tag '' @ currentTag @
                           '' not found in local tag list. Ensure tags are fetched.'')), [])
            else if index + 1 \<ge> int (length tags) then
              (Inr [], [Info ''No previous tag found; comparing against the empty tree.''])
            else (Inr (tags ! nat (index + 1)), []))))"

section \<open>Commit range extractor\<close>

text \<open>
  \<open>getCommitShas(previousTag, currentTag, maxCommits, logger)\<close>: the commits of the
  range as \<open>git log --reverse\<close> lists them (oldest first), cut to the most recent
  \<open>maxCommits\<close> with a warning.
\<close>

definition getCommitShas ::
  "git \<Rightarrow> string \<Rightarrow> string \<Rightarrow> int \<Rightarrow> (error + string list) \<times> log_entry list" where
  "getCommitShas git previousTag currentTag maxCommits =
     (let range = (if previousTag \<noteq> [] then previousTag @ ''..'' @ currentTag else currentTag)
      in case runGit git [''log'', ''--reverse'', ''--pretty=format:%H'', range] False True of
           Inl e \<Rightarrow> (Inl e, [])
         | Inr output \<Rightarrow>
             if output = [] then (Inr [], [])
             else
               (let commits = filter (\<lambda>s. s \<noteq> []) (map trim (splitOn [LF] output))
                in if int (length commits) > maxCommits then
                     (Inr (js_slice_from commits (int (length commits) - maxCommits)),
                      [Warning (''Found '' @ showNat (length commits) @
                                '' commits; truncating to the most recent '' @
                                showInt maxCommits @ ''.'')])
                   else (Inr commits, [])))"

section \<open>Change classifier and diff extractor\<close>

definition MAX_LINE_LENGTH :: int where
  "MAX_LINE_LENGTH = 300"

definition DEFAULT_SOURCE_EXTENSIONS :: "string set" where
  "DEFAULT_SOURCE_EXTENSIONS = set
     [''.ts'', ''.tsx'', ''.js'', ''.jsx'', ''.mjs'', ''.cjs'', ''.py'', ''.go'', ''.rs'',
      ''.java'', ''.kt'', ''.kts'', ''.swift'', ''.cs'', ''.cpp'', ''.c'', ''.h'', ''.hpp'',
      ''.m'', ''.mm'', ''.rb'', ''.php'', ''.scala'', ''.lua'', ''.sh'', ''.ps1'', ''.pl'',
      ''.r'', ''.dart'', ''.sql'', ''.hs'', ''.clj'', ''.cljs'', ''.erl'', ''.ex'', ''.exs'']"

record CommitData =
  sha :: string
  message :: string
  diffLines :: "string list"

record FileStat =
  path :: string
  isBinary :: bool
  isSource :: bool

definition formatFileStatus :: "string \<Rightarrow> string" where
  "formatFileStatus status =
     (if startsWith status ''R'' then ''renamed''
      else if startsWith status ''C'' then ''copied''
      else if status = ''A'' then ''added''
      else if status = ''M'' then ''modified''
      else if status = ''D'' then ''deleted''
      else status)"

text \<open>
  The loop of \<open>fallbackFileChanges\<close> over the lines of the name-status listing: blank
  lines and lines without a path are skipped, and the loop stops once \<open>maxLines\<close>
  entries are collected.
\<close>

fun fallbackLoop :: "int \<Rightarrow> string list \<Rightarrow> string list \<Rightarrow> string list" where
  "fallbackLoop maxLines [] results = results"
| "fallbackLoop maxLines (line # rest) results =
     (if trim line = [] then fallbackLoop maxLines rest results
      else
        (case splitOn [TAB] line of
           [] \<Rightarrow> fallbackLoop maxLines rest results
         | status # pathParts \<Rightarrow>
             (let filePath = join [TAB] pathParts
              in if filePath = [] then fallbackLoop maxLines rest results
                 else
                   (let results' = results @ [filePath @ '': '' @ formatFileStatus status]
                    in if int (length results') \<ge> maxLines then results'
                       else fallbackLoop maxLines rest results'))))"

definition fallbackFileChanges :: "git \<Rightarrow> string \<Rightarrow> int \<Rightarrow> error + string list" where
  "fallbackFileChanges git commitSha maxLines =
     (case runGit git [''show'', ''--name-status'', ''--pretty=format:'', commitSha] False True of
        Inl e \<Rightarrow> Inl e
      | Inr output \<Rightarrow>
          if output = [] then Inr []
          else Inr (fallbackLoop maxLines (splitOn [LF] output) []))"

definition normalizePath :: "string \<Rightarrow> string" where
  "normalizePath p =
     (if \<not> includes_str p ''=>'' then p
      else filter (\<lambda>c. c \<noteq> CHR ''{'' \<and> c \<noteq> CHR ''}'') (trim (last (splitOn ''=>'' p))))"

definition isSourcePath :: "string \<Rightarrow> string set \<Rightarrow> bool" where
  "isSourcePath p extensions =
     (let normalized = toLowerCase (normalizePath p);
          dotIndex = lastIndexOf normalized (CHR ''.'')
      in if dotIndex = -1 then False
         else js_slice_from normalized dotIndex \<in> extensions)"

text \<open>
  One line of the \<open>--numstat\<close> listing: \<open>additions TAB deletions TAB path\<close>. A blank
  line or a line without a path gives no entry.
\<close>

definition numstatEntry :: "string set \<Rightarrow> string \<Rightarrow> FileStat option" where
  "numstatEntry extensions line =
     (if trim line = [] then None
      else
        (case splitOn [TAB] line of
           additions # deletions # pathParts \<Rightarrow>
             (let rawPath = join [TAB] pathParts
              in if rawPath = [] then None
                 else
                   (let p = normalizePath rawPath;
                        binary = (additions = ''-'' \<or> deletions = ''-'');
                        source = (\<not> binary \<and> isSourcePath p extensions)
                    in Some \<lparr>path = p, isBinary = binary, isSource = source\<rparr>))
         | _ \<Rightarrow> None))"

definition getFileStats :: "git \<Rightarrow> string \<Rightarrow> string set \<Rightarrow> error + FileStat list" where
  "getFileStats git commitSha extensions =
     (case runGit git [''show'', ''--numstat'', ''--pretty=format:'', commitSha] False True of
        Inl e \<Rightarrow> Inl e
      | Inr output \<Rightarrow>
          if output = [] then Inr []
          else Inr (List.map_filter (numstatEntry extensions) (splitOn [LF] output)))"

definition summarizeNonSource :: "FileStat \<Rightarrow> string" where
  "summarizeNonSource file =
     (if isBinary file then path file @ '': binary change (diff omitted)''
      else path file @ '': non-source change (diff omitted)'')"

definition summarizeSource :: "string \<Rightarrow> string" where
  "summarizeSource p = p @ '': source change (diff omitted)''"

text \<open>\<open>rawLine.replace(/\r$/, "")\<close>: one carriage return at the very end goes.\<close>

definition stripCR :: "string \<Rightarrow> string" where
  "stripCR s = (if s \<noteq> [] \<and> last s = CR then butlast s else s)"

text \<open>
  The path of a \<open>diff --git\<close> header, as the regular expression
  \<open>/^diff --git a\/(.+?) b\/(.+)$/\<close> finds it: its second group for the shortest
  non-empty first group, and the empty string when the line does not match. A dot of
  the expression matches no line terminator.
\<close>

fun afterFirstB :: "string \<Rightarrow> string option" where
  "afterFirstB [] = None"
| "afterFirstB (c # cs) =
     (if startsWith (c # cs) '' b/'' \<and> drop 3 (c # cs) \<noteq> [] then Some (drop 3 (c # cs))
      else afterFirstB cs)"

definition diffHeaderPath :: "string \<Rightarrow> string" where
  "diffHeaderPath line =
     (if \<not> startsWith line ''diff --git a/'' then []
      else
        (let rest = drop 13 line
         in if rest = [] \<or> (\<exists>c \<in> set rest. c = LF \<or> c = CR) then []
            else (case afterFirstB (tl rest) of None \<Rightarrow> [] | Some p \<Rightarrow> p)))"

text \<open>The stored form of a diff content line: cut to \<open>MAX_LINE_LENGTH\<close>.\<close>

definition trimmedLine :: "string \<Rightarrow> string" where
  "trimmedLine line =
     (if int (length line) > MAX_LINE_LENGTH
      then js_slice line 0 (MAX_LINE_LENGTH - 3) @ ''...''
      else line)"

text \<open>An entry of the result: the line behind its file's path, when one is known.\<close>

definition fileEntry :: "string \<Rightarrow> string \<Rightarrow> string" where
  "fileEntry currentFile line = (if currentFile \<noteq> [] then currentFile @ '': '' @ line else line)"

text \<open>
  What the body of the loop of \<open>extractDiffLines\<close> does with one line (its carriage
  return already removed), given the state \<open>currentFile\<close>, \<open>includeFile\<close>:
  \<^item> \<open>NextLine\<close>: a \<open>continue\<close>, on to the next line with the file state given (a
    header sets it anew) and without the test of the cap;
  \<^item> \<open>Store\<close>: the entry is pushed to the results, then the cap is tested;
  \<^item> \<open>Pass\<close>: nothing is pushed, and the cap is tested.
\<close>

datatype line_action = NextLine string bool | Store string | Pass

definition diffLineAction :: "string set option \<Rightarrow> string \<Rightarrow> bool \<Rightarrow> string \<Rightarrow> line_action" where
  "diffLineAction allowedPaths currentFile includeFile line =
     (if startsWith line ''diff --git '' then
        (let file = diffHeaderPath line
         in NextLine file (case allowedPaths of None \<Rightarrow> True | Some allowed \<Rightarrow> file \<in> allowed))
      else if \<not> includeFile then NextLine currentFile includeFile
      else if startsWith line ''+++ '' \<or> startsWith line ''--- '' \<or> startsWith line ''@@''
              \<or> startsWith line (CHR 0x5C # '' No newline'') then
        NextLine currentFile includeFile
      else if startsWith line ''Binary files '' then Store (fileEntry currentFile line)
      else if startsWith line ''+'' \<or> startsWith line ''-'' then
        (if startsWith line ''+++'' \<or> startsWith line ''---'' then NextLine currentFile includeFile
         else Store (fileEntry currentFile (trimmedLine line)))
      else Pass)"

text \<open>
  The loop of \<open>extractDiffLines\<close> over the raw lines of the diff, with its state
  (\<open>results\<close>, \<open>currentFile\<close>, \<open>includeFile\<close>); it ends at the last line, or at the
  test of the cap once \<open>maxLines\<close> results are there.
\<close>

fun diffLoop ::
  "string set option \<Rightarrow> int \<Rightarrow> string list \<Rightarrow> string list \<Rightarrow> string \<Rightarrow> bool \<Rightarrow> string list" where
  "diffLoop allowedPaths maxLines [] results currentFile includeFile = results"
| "diffLoop allowedPaths maxLines (rawLine # rest) results currentFile includeFile =
     (case diffLineAction allowedPaths currentFile includeFile (stripCR rawLine) of
        NextLine file included \<Rightarrow> diffLoop allowedPaths maxLines rest results file included
      | Store entry \<Rightarrow>
          (let results' = results @ [entry]
           in if int (length results') \<ge> maxLines then results'
              else diffLoop allowedPaths maxLines rest results' currentFile includeFile)
      | Pass \<Rightarrow>
          if int (length results) \<ge> maxLines then results
          else diffLoop allowedPaths maxLines rest results currentFile includeFile)"

definition extractDiffLines ::
  "git \<Rightarrow> string \<Rightarrow> int \<Rightarrow> string \<Rightarrow> string set option \<Rightarrow> error + string list" where
  "extractDiffLines git diff maxLines commitSha allowedPaths =
     (let results = diffLoop allowedPaths maxLines (splitOn [LF] diff) [] [] True
      in if results = [] then fallbackFileChanges git commitSha maxLines
         else Inr results)"

text \<open>
  The \<open>try\<close> block of \<open>buildCommitData\<close> with its \<open>catch\<close>: the diff lines of the
  source files, or, when reading the diff throws, a warning and one summary line per
  source file.
\<close>

definition diffFailure :: "string \<Rightarrow> int \<Rightarrow> string list \<Rightarrow> error \<Rightarrow> string list \<times> log_entry list" where
  "diffFailure commitSha maxDiffLines sourcePaths e =
     (case e of Error msg \<Rightarrow>
        (if sourcePaths \<noteq> [] then map summarizeSource (js_slice sourcePaths 0 maxDiffLines) else [],
         [Warning (''Failed to read diff for '' @ js_slice commitSha 0 7 @ '': '' @ msg @
                   ''. Falling back to file summary.'')]))"

definition readDiffLines ::
  "git \<Rightarrow> string \<Rightarrow> int \<Rightarrow> string list \<Rightarrow> string list \<times> log_entry list" where
  "readDiffLines git commitSha maxDiffLines sourcePaths =
     (if sourcePaths \<noteq> [] then
        (case runGit git [''show'', ''--no-color'', ''--unified=0'', ''--pretty=format:'', commitSha]
                False False of
           Inl e \<Rightarrow> diffFailure commitSha maxDiffLines sourcePaths e
         | Inr diff \<Rightarrow>
             (case extractDiffLines git diff maxDiffLines commitSha (Some (set sourcePaths)) of
                Inl e \<Rightarrow> diffFailure commitSha maxDiffLines sourcePaths e
              | Inr extracted \<Rightarrow> (extracted, [])))
      else ([], []))"

text \<open>The body of the \<open>map\<close> of \<open>buildCommitData\<close>: the record of one commit.\<close>

definition buildCommit ::
  "git \<Rightarrow> int \<Rightarrow> string set \<Rightarrow> string \<Rightarrow> (error + CommitData) \<times> log_entry list" where
  "buildCommit git maxDiffLines sourceExtensions commitSha =
     (case runGit git [''log'', ''-1'', ''--pretty=format:%s%n%n%b'', commitSha] False True of
        Inl e \<Rightarrow> (Inl e, [])
      | Inr output \<Rightarrow>
          (let msg = trim output
           in case getFileStats git commitSha sourceExtensions of
                Inl e \<Rightarrow> (Inl e, [])
              | Inr fileStats \<Rightarrow>
                  (let sourcePaths = map path (filter isSource fileStats);
                       nonSourceEntries =
                         map summarizeNonSource (filter (\<lambda>file. \<not> isSource file) fileStats);
                       (extracted, notices) = readDiffLines git commitSha maxDiffLines sourcePaths
                   in (Inr \<lparr>sha = commitSha,
                            message = (if msg \<noteq> [] then msg else ''(no commit message)''),
                            diffLines = js_slice (extracted @ nonSourceEntries) 0 maxDiffLines\<rparr>,
                       notices))))"

text \<open>
  \<open>buildCommitData(shas, maxDiffLines, logger, sourceExtensions)\<close>: the records in the
  order of the shas; an error thrown for one commit ends the whole call.
\<close>

fun buildCommitData ::
  "git \<Rightarrow> string list \<Rightarrow> int \<Rightarrow> string set \<Rightarrow> (error + CommitData list) \<times> log_entry list" where
  "buildCommitData git [] maxDiffLines sourceExtensions = (Inr [], [])"
| "buildCommitData git (commitSha # shas) maxDiffLines sourceExtensions =
     (case buildCommit git maxDiffLines sourceExtensions commitSha of
        (Inl e, notices) \<Rightarrow> (Inl e, notices)
      | (Inr commit, notices) \<Rightarrow>
          (case buildCommitData git shas maxDiffLines sourceExtensions of
             (Inl e, later) \<Rightarrow> (Inl e, notices @ later)
           | (Inr commits, later) \<Rightarrow> (Inr (commit # commits), notices @ later)))"

section \<open>Prompt builder\<close>

definition formatCommitBlock :: "CommitData \<Rightarrow> string" where
  "formatCommitBlock commit =
     (let shown = (if diffLines commit \<noteq> [] then diffLines commit
                   else [''(No diff content available)'']);
          diffText = join [LF] (map (\<lambda>line. ''- '' @ line) shown)
      in join [LF]
           [''Commit '' @ js_slice (sha commit) 0 7,
            ''The following changes had this commit message:'',
            message commit,
            [],
            ''The changes in this commit were:'',
            diffText])"

definition buildPrompt :: "string \<Rightarrow> string \<Rightarrow> CommitData list \<Rightarrow> string \<Rightarrow> string" where
  "buildPrompt currentTag previousTag commits githubNotes =
     (let header = join [LF]
            [''Release tag: '' @ currentTag,
             (if previousTag \<noteq> [] then ''Previous tag: '' @ previousTag
              else ''Previous tag: (none)''),
             ''Commit count: '' @ showNat (length commits),
             []];
          commitBlocks =
            (if commits \<noteq> [] then map formatCommitBlock commits
             else [''No commits were found between the previous and current tag.'',
                   ''Write a short placeholder release note that explains there are no code changes.'']);
          prompt = header @ join [LF, LF] commitBlocks
      in if githubNotes \<noteq> [] then
           prompt @ [LF, LF] @
           ''GitHub auto-generated notes (extra context, do not quote verbatim):'' @ [LF] @
           githubNotes
         else prompt)"

section \<open>The summarizer's response\<close>

text \<open>
  The response of the summarizer as \<open>extractResponseText\<close> reads it: the field
  \<open>output_text\<close> when it is there, and the array \<open>output\<close> of items, each with its
  \<open>type\<close> and, when it is a string, its \<open>text\<close>.
\<close>

record OutputItem =
  item_type :: string
  item_text :: "string option"

record Response =
  output_text :: "string option"
  output_items :: "OutputItem list option"

definition outputItemsText :: "Response \<Rightarrow> string" where
  "outputItemsText response =
     (case output_items response of
        None \<Rightarrow> []
      | Some items \<Rightarrow>
          (let textItems =
                 List.map_filter item_text (filter (\<lambda>item. item_type item = ''output_text'') items)
           in if textItems \<noteq> [] then join [LF] textItems else []))"

definition extractResponseText :: "Response \<Rightarrow> string" where
  "extractResponseText response =
     (case output_text response of
        None \<Rightarrow> outputItemsText response
      | Some t \<Rightarrow> if t \<noteq> [] then t else outputItemsText response)"

section \<open>Chunking planner\<close>

definition trimText :: "string \<Rightarrow> int \<Rightarrow> string" where
  "trimText t maxLength =
     (if int (length t) \<le> maxLength then t
      else if maxLength \<le> 3 then js_slice t 0 maxLength
      else js_slice t 0 (maxLength - 3) @ ''...'')"

text \<open>
  The \<open>while\<close> loop of \<open>truncateCommit\<close>: as long as the block is over the budget and
  diff lines are left, the last one goes. The state is the list of diff lines and the
  flag \<open>changed\<close>; the block is measured anew from the list each time round.
\<close>

function dropDiffLines ::
  "CommitData \<Rightarrow> string \<Rightarrow> int \<Rightarrow> string list \<Rightarrow> bool \<Rightarrow> string list \<times> bool" where
  "dropDiffLines commit msg maxChars kept changed =
     (if int (length (formatCommitBlock (commit\<lparr>message := msg, diffLines := kept\<rparr>))) > maxChars
         \<and> kept \<noteq> []
      then dropDiffLines commit msg maxChars (butlast kept) True
      else (kept, changed))"
  by pat_completeness auto
termination
  by (relation "measure (\<lambda>(commit, msg, maxChars, kept, changed). length kept)") auto

declare dropDiffLines.simps [simp del]

text \<open>The number of times the loop's body runs.\<close>

function dropDiffLinesSteps :: "CommitData \<Rightarrow> string \<Rightarrow> int \<Rightarrow> string list \<Rightarrow> nat" where
  "dropDiffLinesSteps commit msg maxChars kept =
     (if int (length (formatCommitBlock (commit\<lparr>message := msg, diffLines := kept\<rparr>))) > maxChars
         \<and> kept \<noteq> []
      then Suc (dropDiffLinesSteps commit msg maxChars (butlast kept))
      else 0)"
  by pat_completeness auto
termination
  by (relation "measure (\<lambda>(commit, msg, maxChars, kept). length kept)") auto

declare dropDiffLinesSteps.simps [simp del]

definition truncationNotice :: "CommitData \<Rightarrow> log_entry" where
  "truncationNotice commit =
     Warning (''Commit '' @ js_slice (sha commit) 0 7 @ '' truncated to fit prompt budget.'')"

definition truncateCommit :: "CommitData \<Rightarrow> int \<Rightarrow> CommitData \<times> log_entry list" where
  "truncateCommit commit maxChars =
     (let maxMessageLength = max 200 (maxChars div 4);
          (msg1, changed1) =
            (if int (length (message commit)) > maxMessageLength
             then (trimText (message commit) maxMessageLength, True)
             else (message commit, False));
          (kept2, changed2) = dropDiffLines commit msg1 maxChars (diffLines commit) changed1;
          block = formatCommitBlock (commit\<lparr>message := msg1, diffLines := kept2\<rparr>);
          (kept3, changed3) =
            (if int (length block) > maxChars \<and> kept2 \<noteq> [] then ([], True)
             else (kept2, changed2));
          (msg4, kept4, changed4) =
            (if int (length block) > maxChars
             then (trimText msg1 (max 50 (maxChars - 200)), [], True)
             else (msg1, kept3, changed3))
      in (commit\<lparr>message := msg4, diffLines := kept4\<rparr>,
          if changed4 then [truncationNotice commit] else []))"

text \<open>
  The first part of the body of the loop of \<open>chunkCommits\<close>: the record that goes into
  a chunk, the commit itself or, when its block is over the budget, its truncation.
\<close>

definition chunkCandidate :: "int \<Rightarrow> CommitData \<Rightarrow> CommitData \<times> log_entry list" where
  "chunkCandidate maxChars commit =
     (if int (length (formatCommitBlock commit)) > maxChars
      then truncateCommit commit maxChars
      else (commit, []))"

text \<open>
  The loop of \<open>chunkCommits\<close> with its state: the closed chunks, the chunk being
  filled, its size as the loop counts it, and the notices logged so far.
\<close>

fun chunkLoop ::
  "int \<Rightarrow> CommitData list \<Rightarrow> CommitData list list \<Rightarrow> CommitData list \<Rightarrow> int \<Rightarrow> log_entry list
   \<Rightarrow> CommitData list list \<times> CommitData list \<times> log_entry list" where
  "chunkLoop maxChars [] chunks current currentSize logged = (chunks, current, logged)"
| "chunkLoop maxChars (commit # commits) chunks current currentSize logged =
     (let (candidate, notices) = chunkCandidate maxChars commit;
          blockLength = int (length (formatCommitBlock candidate))
      in if current \<noteq> [] \<and> currentSize + blockLength + 2 > maxChars
         then chunkLoop maxChars commits (chunks @ [current]) [candidate]
                (0 + blockLength + 2) (logged @ notices)
         else chunkLoop maxChars commits chunks (current @ [candidate])
                (currentSize + blockLength + 2) (logged @ notices))"

definition chunkCommits :: "CommitData list \<Rightarrow> int \<Rightarrow> CommitData list list \<times> log_entry list" where
  "chunkCommits commits maxChars =
     (case chunkLoop maxChars commits [] [] 0 [] of
        (chunks, current, logged) \<Rightarrow>
          (if current \<noteq> [] then chunks @ [current] else chunks, logged))"

text \<open>
  The text of a chunk inside a prompt: the blocks of its commits, two line feeds
  between them, as \<open>buildPrompt\<close> joins them.
\<close>

definition chunkText :: "CommitData list \<Rightarrow> string" where
  "chunkText chunk = join [LF, LF] (map formatCommitBlock chunk)"

section \<open>Staged summarization\<close>

definition buildSummaryPrompt :: "string \<Rightarrow> string \<Rightarrow> CommitData list \<Rightarrow> string" where
  "buildSummaryPrompt currentTag previousTag commits = buildPrompt currentTag previousTag commits []"

definition buildFinalPrompt :: "string \<Rightarrow> string \<Rightarrow> string list \<Rightarrow> string \<Rightarrow> string" where
  "buildFinalPrompt currentTag previousTag summaries githubNotes =
     (let header = join [LF]
            [''Release tag: '' @ currentTag,
             (if previousTag \<noteq> [] then ''Previous tag: '' @ previousTag
              else ''Previous tag: (none)''),
             ''Summary batch count: '' @ showNat (length summaries),
             []];
          blocks = map (\<lambda>(index, summary).
                          ''Batch '' @ showNat (index + 1) @ '' summary:'' @ [LF] @ summary)
                       (enumerate 0 summaries);
          prompt = header @ join [LF, LF] blocks
      in if githubNotes \<noteq> [] then
           prompt @ [LF, LF] @
           ''GitHub auto-generated notes (extra context, do not quote verbatim):'' @ [LF] @
           githubNotes
         else prompt)"

text \<open>
  The summarizer, \<open>client.responses.create({model, input, instructions})\<close>, is a
  parameter: for an input and its instructions, a thrown error or a response. Every
  function that calls it returns the list of the calls it made, in order.
\<close>

type_synonym client = "string \<Rightarrow> string \<Rightarrow> error + Response"

type_synonym submission = "string \<times> string"

definition generateResponseText ::
  "client \<Rightarrow> string \<Rightarrow> string \<Rightarrow> string \<Rightarrow> (error + string) \<times> submission list" where
  "generateResponseText client input instructions label =
     (case client input instructions of
        Inl e \<Rightarrow> (Inl e, [(input, instructions)])
      | Inr response \<Rightarrow>
          (let t = trim (extractResponseText response)
           in if t = [] then
                (Inl (Error (''Model response did not include text output ('' @ label @ '').'')),
                 [(input, instructions)])
              else (Inr t, [(input, instructions)])))"

definition finalInstructions :: string where
  "finalInstructions =
     ''Write concise release notes in Markdown for end users. '' @
     ''Use a '' @ [CHR 0x27] @ ''## What'' @ [CHR 0x27] @ ''s Changed'' @ [CHR 0x27] @
     '' heading and bullet points. '' @
     ''Prefer user-facing changes over internal refactors. '' @
     ''Do not include code fences.''"

definition stageInstructions :: string where
  "stageInstructions =
     ''Summarize the following commits into a concise Markdown bullet list. '' @
     ''Focus on user-facing changes; mention notable internal changes briefly. '' @
     ''Do not include code fences.''"

text \<open>
  The loop of \<open>run\<close> over the chunks: chunk \<open>index\<close> (from 0) is summarized under the
  label \<open>stage-(index + 1)\<close>; an error thrown by a stage ends the loop.
\<close>

fun stageLoop ::
  "client \<Rightarrow> string \<Rightarrow> string \<Rightarrow> nat \<Rightarrow> CommitData list list \<Rightarrow> string list
   \<Rightarrow> (error + string list) \<times> submission list" where
  "stageLoop client tag previousTag index [] summaries = (Inr summaries, [])"
| "stageLoop client tag previousTag index (chunk # chunks) summaries =
     (case generateResponseText client (buildSummaryPrompt tag previousTag chunk)
             stageInstructions (''stage-'' @ showNat (index + 1)) of
        (Inl e, calls) \<Rightarrow> (Inl e, calls)
      | (Inr summary, calls) \<Rightarrow>
          (case stageLoop client tag previousTag (index + 1) chunks (summaries @ [summary]) of
             (result, later) \<Rightarrow> (result, calls @ later)))"

text \<open>
  The summarization of \<open>run\<close>, from the full prompt to the release notes: one
  submission when the prompt fits the stage budget, the staged flow otherwise. The
  result is the error that ends the run or the release notes, with the submissions
  made and what was logged.
\<close>

definition runSummarization ::
  "client \<Rightarrow> string \<Rightarrow> string \<Rightarrow> CommitData list \<Rightarrow> string \<Rightarrow> int
   \<Rightarrow> (error + string) \<times> submission list \<times> log_entry list" where
  "runSummarization client tag previousTag commits githubNotes maxStageChars =
     (let fullPrompt = buildPrompt tag previousTag commits githubNotes
      in if int (length fullPrompt) \<le> maxStageChars then
           (case generateResponseText client fullPrompt finalInstructions ''final'' of
              (result, calls) \<Rightarrow> (result, calls, []))
         else
           (let chunkBudget = max 1000 (maxStageChars - 2000)
            in case chunkCommits commits chunkBudget of
                 (chunks, notices) \<Rightarrow>
                   (let logged = notices @
                          [Info (''Full prompt size '' @ showNat (length fullPrompt) @
                                 '' exceeds '' @ showInt maxStageChars @
                                 ''. Summarizing in '' @ showNat (length chunks) @ '' batches.'')]
                    in case stageLoop client tag previousTag 0 chunks [] of
                         (Inl e, calls) \<Rightarrow> (Inl e, calls, logged)
                       | (Inr summaries, calls) \<Rightarrow>
                           (case generateResponseText client
                                   (buildFinalPrompt tag previousTag summaries githubNotes)
                                   finalInstructions ''final'' of
                              (result, later) \<Rightarrow> (result, calls @ later, logged)))))"

section \<open>Scenarios\<close>

text \<open>Concrete inputs on which the theorems below are exercised.\<close>

text \<open>A repository with two tags, listed newest first; every other query fails.\<close>

definition twoTagsGit :: git where
  "twoTagsGit args =
     (if args = [''for-each-ref'', ''--sort=-creatordate'', ''--format=%(refname:short)'', ''refs/tags'']
      then Inr (''v1.1.0'' @ [LF] @ ''v1.0.0'' @ [LF])
      else Inl ''fatal'')"

definition commitFirst :: CommitData where
  "commitFirst =
     \<lparr>sha = ''1111111aaaa'', message = ''feat: first'',
      diffLines = [''src/a.ts: +let a = 1;'']\<rparr>"

definition commitSecond :: CommitData where
  "commitSecond = \<lparr>sha = ''2222222bbbb'', message = ''fix: second'', diffLines = []\<rparr>"

text \<open>A commit whose message alone is longer than a stage budget of 1000.\<close>

definition commitLongMessage :: CommitData where
  "commitLongMessage =
     \<lparr>sha = ''0123456789abcdef'', message = replicate 1300 (CHR ''m''),
      diffLines = [''src/a.ts: +x'']\<rparr>"

text \<open>A range of three commits, and an empty range.\<close>

definition threeCommitsGit :: git where
  "threeCommitsGit args =
     (if args = [''log'', ''--reverse'', ''--pretty=format:%H'', ''v1.0.0..v1.1.0'']
      then Inr (''aaa1'' @ [LF] @ ''bbb2'' @ [LF] @ ''ccc3'' @ [LF])
      else if args = [''log'', ''--reverse'', ''--pretty=format:%H'', ''v1.1.0..v1.1.0'']
      then Inr []
      else Inl ''fatal'')"

text \<open>
  One commit that changes a source file and a file that is not source. The outcome of
  reading its diff and of the name-status listing are parameters of the scenario.
\<close>

definition exampleDiff :: string where
  "exampleDiff = join [LF]
     [''diff --git a/src/a.ts b/src/a.ts'',
      ''index 1111111..2222222 100644'',
      ''--- a/src/a.ts'',
      ''+++ b/src/a.ts'',
      ''@@ -1 +1 @@'',
      ''-let a = 1;'',
      ''+let a = 2;'',
      ''diff --git a/README.md b/README.md'',
      ''index 3333333..4444444 100644'',
      ''--- a/README.md'',
      ''+++ b/README.md'',
      ''@@ -0,0 +1 @@'',
      ''+hello'',
      []]"

definition oneCommitGit :: "string + string \<Rightarrow> string + string \<Rightarrow> git" where
  "oneCommitGit diffOutcome nameStatusOutcome args =
     (if args = [''log'', ''-1'', ''--pretty=format:%s%n%n%b'', ''abc1234def'']
      then Inr (''feat: change a'' @ [LF])
      else if args = [''show'', ''--numstat'', ''--pretty=format:'', ''abc1234def'']
      then Inr (''1'' @ [TAB] @ ''1'' @ [TAB] @ ''src/a.ts'' @ [LF] @
                ''1'' @ [TAB] @ ''0'' @ [TAB] @ ''README.md'' @ [LF])
      else if args = [''show'', ''--no-color'', ''--unified=0'', ''--pretty=format:'', ''abc1234def'']
      then diffOutcome
      else if args = [''show'', ''--name-status'', ''--pretty=format:'', ''abc1234def'']
      then nameStatusOutcome
      else Inl ''fatal'')"

definition exampleNameStatus :: string where
  "exampleNameStatus = ''M'' @ [TAB] @ ''src/a.ts'' @ [LF] @ ''M'' @ [TAB] @ ''README.md'' @ [LF]"

text \<open>The diff of one file with one added line of 500 characters.\<close>

definition longLineDiff :: string where
  "longLineDiff =
     ''diff --git a/src/a.ts b/src/a.ts'' @ [LF] @ ''+'' @ replicate 499 (CHR ''x'')"

text \<open>A commit with a message of 300 characters and five diff lines of 200 characters.\<close>

definition commitOversized :: CommitData where
  "commitOversized =
     \<lparr>sha = ''fedcba9876543210'', message = replicate 300 (CHR ''m''),
      diffLines = map (\<lambda>k. ''src/a.ts: +'' @ replicate 188 (CHR ''x'') @ showNat k) [1, 2, 3, 4, 5]\<rparr>"

text \<open>A summarizer that answers every submission with one blank.\<close>

definition blankClient :: client where
  "blankClient input instructions = Inr \<lparr>output_text = Some '' '', output_items = Some []\<rparr>"

section \<open>Basic facts about strings and arrays\<close>

lemma length_join:
  "length (join sep xs) = sum_list (map length xs) + length sep * (length xs - 1)"
  by (induction sep xs rule: join.induct) auto

lemma js_slice_prefix: "0 \<le> e \<Longrightarrow> js_slice xs 0 e = take (nat e) xs"
  by (auto simp: js_slice_def Let_def min_def)

lemma js_slice_0_length: "length (js_slice xs 0 e) \<le> length xs"
  by (auto simp: js_slice_def Let_def)

lemma js_slice_from_drop:
  "0 \<le> s \<Longrightarrow> js_slice_from xs s = drop (nat s) xs"
  by (auto simp: js_slice_from_def js_slice_def Let_def min_def)

lemma trim_Nil: "trim [] = []"
  by (simp add: trim_def trimEnd_def trimStart_def)

lemma startsWith_iff: "startsWith s p \<longleftrightarrow> (\<exists>r. s = p @ r)"
proof
  assume "startsWith s p"
  then have "s = p @ drop (length p) s"
    by (metis append_take_drop_id startsWith_def)
  then show "\<exists>r. s = p @ r" ..
next
  assume "\<exists>r. s = p @ r"
  then show "startsWith s p" by (auto simp: startsWith_def)
qed

lemma startsWith_append: "startsWith s (p @ q) \<Longrightarrow> startsWith s p"
  by (auto simp: startsWith_iff)

lemma startsWith_Cons: "startsWith (c # cs) (d # ds) = (c = d \<and> startsWith cs ds)"
  by (simp add: startsWith_def)

section \<open>Properties of the tag resolver\<close>

lemma indexOf_absent: "x \<notin> set xs \<Longrightarrow> indexOf xs x = -1"
  by (induction xs) auto

lemma indexOf_first: "x \<notin> set pre \<Longrightarrow> indexOf (pre @ x # rest) x = int (length pre)"
proof (induction pre)
  case Nil
  show ?case by simp
next
  case (Cons p pre)
  then have "indexOf (pre @ x # rest) x = int (length pre)" by simp
  with Cons.prems show ?case by (auto simp: Let_def)
qed

text \<open>
  C3. With no override, and \<open>L\<close> the tag list as listed (newest first): an empty \<open>L\<close>
  fails with the no-tags error; a current tag \<open>T\<close> that is not in \<open>L\<close> fails with the
  error that names \<open>T\<close>; when \<open>T\<close> is in \<open>L\<close> (at its first position, the only one
  since tag names are unique) the result is the element right after it, and the empty
  string, with the informational notice, when \<open>T\<close> is the last element.
\<close>

theorem resolvePreviousTag_no_override:
  "(listTags git = [] \<longrightarrow>
      resolvePreviousTag git T [] =
        (Inl (Error ''No tags found locally. Ensure actions/checkout uses fetch-depth: 0.''), []))
   \<and> (listTags git \<noteq> [] \<and> T \<notin> set (listTags git) \<longrightarrow>
      resolvePreviousTag git T [] =
        (Inl (Error (''Tag '' @ T @ '' not found in local tag list. Ensure tags are fetched.'')), []))
   \<and> (\<forall>pre nxt rest. listTags git = pre @ T # nxt # rest \<and> T \<notin> set pre \<longrightarrow>
      resolvePreviousTag git T [] = (Inr nxt, []))
   \<and> (\<forall>pre. listTags git = pre @ [T] \<and> T \<notin> set pre \<longrightarrow>
      resolvePreviousTag git T [] =
        (Inr [], [Info ''No previous tag found; comparing against the empty tree.'']))"
proof (intro conjI allI impI)
  assume "listTags git = []"
  then show "resolvePreviousTag git T [] =
      (Inl (Error ''No tags found locally. Ensure actions/checkout uses fetch-depth: 0.''), [])"
    by (simp add: resolvePreviousTag_def)
next
  assume "listTags git \<noteq> [] \<and> T \<notin> set (listTags git)"
  then show "resolvePreviousTag git T [] =
      (Inl (Error (''Tag '' @ T @ '' not found in local tag list. Ensure tags are fetched.'')), [])"
    by (simp add: resolvePreviousTag_def indexOf_absent)
next
  fix pre nxt rest
  assume a: "listTags git = pre @ T # nxt # rest \<and> T \<notin> set pre"
  then have "indexOf (listTags git) T = int (length pre)"
    by (simp add: indexOf_first)
  with a show "resolvePreviousTag git T [] = (Inr nxt, [])"
    by (simp add: resolvePreviousTag_def Let_def nat_add_distrib nth_append)
next
  fix pre
  assume a: "listTags git = pre @ [T] \<and> T \<notin> set pre"
  then have "indexOf (listTags git) T = int (length pre)"
    by (simp add: indexOf_first)
  with a show "resolvePreviousTag git T [] =
      (Inr [], [Info ''No previous tag found; comparing against the empty tree.''])"
    by (simp add: resolvePreviousTag_def Let_def)
qed

theorem resolvePreviousTag_no_override_witness:
  "resolvePreviousTag twoTagsGit ''v1.1.0'' [] = (Inr ''v1.0.0'', [])
   \<and> resolvePreviousTag twoTagsGit ''v1.0.0'' [] =
       (Inr [], [Info ''No previous tag found; comparing against the empty tree.''])
   \<and> resolvePreviousTag twoTagsGit ''v2'' [] =
       (Inl (Error ''Tag v2 not found in local tag list. Ensure tags are fetched.''), [])
   \<and> resolvePreviousTag (\<lambda>args. Inl ''fatal'') ''v2'' [] =
       (Inl (Error ''No tags found locally. Ensure actions/checkout uses fetch-depth: 0.''), [])"
proof -
  have L: "listTags twoTagsGit = [''v1.1.0'', ''v1.0.0'']" by code_simp
  have E: "listTags (\<lambda>args. Inl ''fatal'') = []" by (simp add: listTags_def runGit_def)
  from L have a: "listTags twoTagsGit = [] @ ''v1.1.0'' # ''v1.0.0'' # [] \<and> ''v1.1.0'' \<notin> set []"
    by simp
  from L have b: "listTags twoTagsGit = [''v1.1.0''] @ [''v1.0.0''] \<and> ''v1.0.0'' \<notin> set [''v1.1.0'']"
    by simp
  from L have c: "listTags twoTagsGit \<noteq> [] \<and> ''v2'' \<notin> set (listTags twoTagsGit)" by simp
  show ?thesis
    using resolvePreviousTag_no_override[of twoTagsGit "''v1.1.0''"] a
      resolvePreviousTag_no_override[of twoTagsGit "''v1.0.0''"] b
      resolvePreviousTag_no_override[of twoTagsGit "''v2''"] c
      resolvePreviousTag_no_override[of "\<lambda>args. Inl ''fatal''" "''v2''"] E
    by (simp del: list.simps append.simps) blast
qed

section \<open>Properties of the commit range extractor\<close>

text \<open>
  C6. Let \<open>C\<close> be the commits of the range as \<open>git log --reverse\<close> lists them, oldest
  first. With a cap \<open>N\<close> below their number, \<open>getCommitShas\<close> returns the last \<open>N\<close>
  elements of \<open>C\<close> in their order and logs the truncation warning; with a cap that
  is not below, it returns \<open>C\<close>; and when the listing is empty it returns the empty
  sequence, not an error.
\<close>

theorem getCommitShas_keeps_most_recent:
  assumes "git [''log'', ''--reverse'', ''--pretty=format:%H'',
               (if previousTag \<noteq> [] then previousTag @ ''..'' @ currentTag else currentTag)] = Inr raw"
    and "C = filter (\<lambda>s. s \<noteq> []) (map trim (splitOn [LF] (trimEnd raw)))"
  shows "(trimEnd raw = [] \<longrightarrow> getCommitShas git previousTag currentTag N = (Inr [], []))
     \<and> (0 \<le> N \<and> N < int (length C) \<longrightarrow>
          getCommitShas git previousTag currentTag N =
            (Inr (drop (length C - nat N) C),
             [Warning (''Found '' @ showNat (length C) @ '' commits; truncating to the most recent '' @
                       showInt N @ ''.'')])
          \<and> length (drop (length C - nat N) C) = nat N)
     \<and> (int (length C) \<le> N \<longrightarrow> getCommitShas git previousTag currentTag N = (Inr C, []))"
proof (intro conjI impI)
  assume "trimEnd raw = []"
  with assms show "getCommitShas git previousTag currentTag N = (Inr [], [])"
    by (simp add: getCommitShas_def runGit_def Let_def)
next
  assume a: "0 \<le> N \<and> N < int (length C)"
  have ne: "trimEnd raw \<noteq> []"
  proof
    assume "trimEnd raw = []"
    with assms(2) have "C = []" by (simp add: trim_Nil)
    with a show False by auto
  qed
  from a have "js_slice_from C (int (length C) - N) = drop (length C - nat N) C"
    by (simp add: js_slice_from_drop nat_diff_distrib')
  with assms a ne show "getCommitShas git previousTag currentTag N =
            (Inr (drop (length C - nat N) C),
             [Warning (''Found '' @ showNat (length C) @ '' commits; truncating to the most recent '' @
                       showInt N @ ''.'')])"
    by (simp add: getCommitShas_def runGit_def Let_def)
  from a show "length (drop (length C - nat N) C) = nat N" by auto
next
  assume a: "int (length C) \<le> N"
  show "getCommitShas git previousTag currentTag N = (Inr C, [])"
  proof (cases "trimEnd raw = []")
    case True
    with assms(2) have "C = []" by (simp add: trim_Nil)
    with True assms show ?thesis by (simp add: getCommitShas_def runGit_def Let_def)
  next
    case False
    with assms a show ?thesis by (simp add: getCommitShas_def runGit_def Let_def)
  qed
qed

theorem getCommitShas_keeps_most_recent_witness:
  "getCommitShas threeCommitsGit ''v1.0.0'' ''v1.1.0'' 2 =
     (Inr [''bbb2'', ''ccc3''], [Warning ''Found 3 commits; truncating to the most recent 2.''])
   \<and> getCommitShas threeCommitsGit ''v1.1.0'' ''v1.1.0'' 2 = (Inr [], [])"
proof -
  have g1: "threeCommitsGit [''log'', ''--reverse'', ''--pretty=format:%H'',
               (if ''v1.0.0'' \<noteq> [] then ''v1.0.0'' @ ''..'' @ ''v1.1.0'' else ''v1.1.0'')] =
            Inr (''aaa1'' @ [LF] @ ''bbb2'' @ [LF] @ ''ccc3'' @ [LF])"
    by (simp add: threeCommitsGit_def)
  have g2: "threeCommitsGit [''log'', ''--reverse'', ''--pretty=format:%H'',
               (if ''v1.1.0'' \<noteq> [] then ''v1.1.0'' @ ''..'' @ ''v1.1.0'' else ''v1.1.0'')] = Inr []"
    by (simp add: threeCommitsGit_def)
  have C: "[''aaa1'', ''bbb2'', ''ccc3''] =
      filter (\<lambda>s. s \<noteq> []) (map trim (splitOn [LF] (trimEnd (''aaa1'' @ [LF] @ ''bbb2'' @ [LF] @ ''ccc3'' @ [LF]))))"
    by code_simp
  have n: "showNat (length [''aaa1'', ''bbb2'', ''ccc3'']) = ''3''" "showInt 2 = ''2''" by code_simp+
  have e: "trimEnd [] = []" by (simp add: trimEnd_def)
  have l: "(0::int) \<le> 2 \<and> 2 < int (length [''aaa1'', ''bbb2'', ''ccc3''])" by simp
  from getCommitShas_keeps_most_recent[of threeCommitsGit "''v1.0.0''" "''v1.1.0''" _ _ 2, OF g1 C] l
  have "getCommitShas threeCommitsGit ''v1.0.0'' ''v1.1.0'' 2 =
     (Inr (drop (length [''aaa1'', ''bbb2'', ''ccc3''] - nat 2) [''aaa1'', ''bbb2'', ''ccc3'']),
             [Warning (''Found '' @ showNat (length [''aaa1'', ''bbb2'', ''ccc3'']) @ '' commits; truncating to the most recent '' @
                       showInt 2 @ ''.'')])"
    by blast
  then have 1: "getCommitShas threeCommitsGit ''v1.0.0'' ''v1.1.0'' 2 =
     (Inr [''bbb2'', ''ccc3''], [Warning ''Found 3 commits; truncating to the most recent 2.''])"
    unfolding n by simp
  from getCommitShas_keeps_most_recent[of threeCommitsGit "''v1.1.0''" "''v1.1.0''" _ _ 2, OF g2 refl] e
  have 2: "getCommitShas threeCommitsGit ''v1.1.0'' ''v1.1.0'' 2 = (Inr [], [])" by blast
  from 1 2 show ?thesis by blast
qed

section \<open>Properties of the commit records\<close>

lemma buildCommit_Inr:
  assumes "buildCommit git M exts s = (Inr c, lg)"
  shows "\<exists>stats. getFileStats git s exts = Inr stats
     \<and> sha c = s
     \<and> diffLines c =
         js_slice (fst (readDiffLines git s M (map path (filter isSource stats))) @
                   map summarizeNonSource (filter (\<lambda>file. \<not> isSource file) stats)) 0 M"
  using assms
  by (auto simp: buildCommit_def Let_def split: sum.splits prod.splits)

text \<open>
  C7. With a cap \<open>M\<close> that is not negative, every record that \<open>buildCommitData\<close>
  returns has at most \<open>M\<close> diff lines, and they are the first \<open>M\<close> of the lines read
  from the diff followed by the one-line summaries of the files that are not source:
  the summaries come after the content lines, so the cap drops them first.
\<close>

theorem buildCommitData_caps_diff_lines:
  assumes "buildCommitData git shas M exts = (Inr commits, lg)" and "0 \<le> M"
  shows "list_all2
           (\<lambda>c s. sha c = s
              \<and> int (length (diffLines c)) \<le> M
              \<and> (\<exists>stats. getFileStats git s exts = Inr stats
                    \<and> diffLines c =
                        take (nat M)
                          (fst (readDiffLines git s M (map path (filter isSource stats))) @
                           map summarizeNonSource (filter (\<lambda>file. \<not> isSource file) stats))))
           commits shas"
  using assms(1)
proof (induction shas arbitrary: commits lg)
  case Nil
  then show ?case by simp
next
  case (Cons s shas)
  from Cons.prems obtain c l1 cs l2 where
    b: "buildCommit git M exts s = (Inr c, l1)" and
    r: "buildCommitData git shas M exts = (Inr cs, l2)" and
    e: "commits = c # cs"
    by (auto split: sum.splits prod.splits)
  from buildCommit_Inr[OF b] obtain stats where
    st: "getFileStats git s exts = Inr stats" and sh: "sha c = s" and
    dl: "diffLines c =
         js_slice (fst (readDiffLines git s M (map path (filter isSource stats))) @
                   map summarizeNonSource (filter (\<lambda>file. \<not> isSource file) stats)) 0 M"
    by blast
  from dl assms(2) have dl': "diffLines c =
         take (nat M) (fst (readDiffLines git s M (map path (filter isSource stats))) @
                   map summarizeNonSource (filter (\<lambda>file. \<not> isSource file) stats))"
    by (simp add: js_slice_prefix)
  then have "length (diffLines c) \<le> nat M" by simp
  with assms(2) have "int (length (diffLines c)) \<le> M" by linarith
  with st sh dl' Cons.IH[OF r] e show ?case by auto
qed

theorem buildCommitData_caps_diff_lines_witness:
  "buildCommitData (oneCommitGit (Inr exampleDiff) (Inr exampleNameStatus)) [''abc1234def''] 2
      DEFAULT_SOURCE_EXTENSIONS =
     (Inr [\<lparr>sha = ''abc1234def'', message = ''feat: change a'',
            diffLines = [''src/a.ts: -let a = 1;'', ''src/a.ts: +let a = 2;'']\<rparr>], [])
   \<and> int (length [''src/a.ts: -let a = 1;'', ''src/a.ts: +let a = 2;'']) \<le> 2
   \<and> buildCommitData (oneCommitGit (Inr exampleDiff) (Inr exampleNameStatus)) [''abc1234def''] 120
      DEFAULT_SOURCE_EXTENSIONS =
     (Inr [\<lparr>sha = ''abc1234def'', message = ''feat: change a'',
            diffLines = [''src/a.ts: -let a = 1;'', ''src/a.ts: +let a = 2;'',
                         ''README.md: non-source change (diff omitted)'']\<rparr>], [])"
proof -
  have e: "buildCommitData (oneCommitGit (Inr exampleDiff) (Inr exampleNameStatus)) [''abc1234def''] 2
      DEFAULT_SOURCE_EXTENSIONS =
     (Inr [\<lparr>sha = ''abc1234def'', message = ''feat: change a'',
            diffLines = [''src/a.ts: -let a = 1;'', ''src/a.ts: +let a = 2;'']\<rparr>], [])"
    by code_simp
  have f: "buildCommitData (oneCommitGit (Inr exampleDiff) (Inr exampleNameStatus)) [''abc1234def''] 120
      DEFAULT_SOURCE_EXTENSIONS =
     (Inr [\<lparr>sha = ''abc1234def'', message = ''feat: change a'',
            diffLines = [''src/a.ts: -let a = 1;'', ''src/a.ts: +let a = 2;'',
                         ''README.md: non-source change (diff omitted)'']\<rparr>], [])"
    by code_simp
  from buildCommitData_caps_diff_lines[OF e]
  have "int (length [''src/a.ts: -let a = 1;'', ''src/a.ts: +let a = 2;'']) \<le> 2" by simp
  with e f show ?thesis by blast
qed

lemma formatFileStatus_cases:
  "formatFileStatus st \<in> {''renamed'', ''copied'', ''added'', ''modified'', ''deleted''}
   \<or> formatFileStatus st = st"
  by (simp add: formatFileStatus_def)

lemma fallbackLoop_entries:
  "e \<in> set (fallbackLoop M ls acc) \<Longrightarrow>
   e \<in> set acc \<or> (\<exists>p st. p \<noteq> [] \<and> e = p @ '': '' @ formatFileStatus st)"
proof (induction ls arbitrary: acc)
  case Nil
  then show ?case by simp
next
  case (Cons l ls)
  show ?case
  proof (cases "trim l = []")
    case True
    with Cons show ?thesis by simp
  next
    case False
    show ?thesis
    proof (cases "splitOn [TAB] l")
      case Nil
      with False Cons show ?thesis by simp
    next
      case (Cons st parts)
      show ?thesis
      proof (cases "join [TAB] parts = []")
        case True
        with False Cons \<open>splitOn [TAB] l = st # parts\<close> Cons.IH[of acc] Cons.prems
        show ?thesis by (simp add: Let_def)
      next
        case nonempty: False
        let ?acc' = "acc @ [join [TAB] parts @ '': '' @ formatFileStatus st]"
        from Cons.prems False \<open>splitOn [TAB] l = st # parts\<close> nonempty
        have "e \<in> set ?acc' \<or> e \<in> set (fallbackLoop M ls ?acc')"
          by (auto simp: Let_def split: if_splits)
        then have "e \<in> set ?acc' \<or> (\<exists>p st. p \<noteq> [] \<and> e = p @ '': '' @ formatFileStatus st)"
          using Cons.IH[of ?acc'] by blast
        with nonempty show ?thesis by auto
      qed
    qed
  qed
qed

lemma buildCommit_returns:
  assumes "git [''log'', ''-1'', ''--pretty=format:%s%n%n%b'', s] = Inr rawMessage"
    and "getFileStats git s exts = Inr stats"
  shows "\<exists>c lg. buildCommit git M exts s = (Inr c, lg) \<and> sha c = s
            \<and> diffLines c =
                js_slice (fst (readDiffLines git s M (map path (filter isSource stats))) @
                          map summarizeNonSource (filter (\<lambda>file. \<not> isSource file) stats)) 0 M"
proof -
  obtain dl lg where "readDiffLines git s M (map path (filter isSource stats)) = (dl, lg)"
    by (cases "readDiffLines git s M (map path (filter isSource stats))") auto
  with assms show ?thesis
    by (simp add: buildCommit_def runGit_def Let_def)
qed

lemma buildCommitData_returns:
  assumes "\<forall>s \<in> set shas.
             (\<exists>rawMessage. git [''log'', ''-1'', ''--pretty=format:%s%n%n%b'', s] = Inr rawMessage)
             \<and> (\<exists>stats. getFileStats git s exts = Inr stats)"
  shows "\<exists>commits lg. buildCommitData git shas M exts = (Inr commits, lg)
     \<and> list_all2
          (\<lambda>c s. sha c = s
             \<and> (\<exists>stats. getFileStats git s exts = Inr stats
                   \<and> diffLines c =
                       js_slice (fst (readDiffLines git s M (map path (filter isSource stats))) @
                                 map summarizeNonSource (filter (\<lambda>file. \<not> isSource file) stats)) 0 M))
          commits shas"
  using assms
proof (induction shas)
  case Nil
  show ?case by simp
next
  case (Cons s shas)
  from Cons.prems obtain rawMessage stats where
    m: "git [''log'', ''-1'', ''--pretty=format:%s%n%n%b'', s] = Inr rawMessage" and
    st: "getFileStats git s exts = Inr stats" by auto
  from buildCommit_returns[OF m st, of M] obtain c lg where
    b: "buildCommit git M exts s = (Inr c, lg)" and sh: "sha c = s" and
    dl: "diffLines c =
           js_slice (fst (readDiffLines git s M (map path (filter isSource stats))) @
                     map summarizeNonSource (filter (\<lambda>file. \<not> isSource file) stats)) 0 M"
    by blast
  from Cons.IH Cons.prems obtain commits lg' where
    r: "buildCommitData git shas M exts = (Inr commits, lg')" and
    a: "list_all2
          (\<lambda>c s. sha c = s
             \<and> (\<exists>stats. getFileStats git s exts = Inr stats
                   \<and> diffLines c =
                       js_slice (fst (readDiffLines git s M (map path (filter isSource stats))) @
                                 map summarizeNonSource (filter (\<lambda>file. \<not> isSource file) stats)) 0 M))
          commits shas" by auto
  from b r have "buildCommitData git (s # shas) M exts = (Inr (c # commits), lg @ lg')" by simp
  with sh st dl a show ?case by auto
qed

lemma readDiffLines_diff_fails:
  assumes "sourcePaths \<noteq> []"
    and "git [''show'', ''--no-color'', ''--unified=0'', ''--pretty=format:'', s] = Inl details"
  shows "readDiffLines git s M sourcePaths =
     (map summarizeSource (js_slice sourcePaths 0 M),
      [Warning (''Failed to read diff for '' @ js_slice s 0 7 @ '': '' @
                (''git '' @ join '' '' [''show'', ''--no-color'', ''--unified=0'', ''--pretty=format:'', s] @
                 '' failed: '' @ details) @
                ''. Falling back to file summary.'')])"
  using assms by (simp add: readDiffLines_def runGit_def diffFailure_def)

lemma readDiffLines_no_lines:
  assumes "sourcePaths \<noteq> []"
    and "git [''show'', ''--no-color'', ''--unified=0'', ''--pretty=format:'', s] = Inr diff"
    and "diffLoop (Some (set sourcePaths)) M (splitOn [LF] diff) [] [] True = []"
    and "git [''show'', ''--name-status'', ''--pretty=format:'', s] = Inr listing"
  shows "readDiffLines git s M sourcePaths =
     (if trimEnd listing = [] then [] else fallbackLoop M (splitOn [LF] (trimEnd listing)) [], [])"
  using assms
  by (simp add: readDiffLines_def runGit_def extractDiffLines_def fallbackFileChanges_def Let_def)

lemma readDiffLines_no_lines_no_listing:
  assumes "sourcePaths \<noteq> []"
    and "git [''show'', ''--no-color'', ''--unified=0'', ''--pretty=format:'', s] = Inr diff"
    and "diffLoop (Some (set sourcePaths)) M (splitOn [LF] diff) [] [] True = []"
    and "git [''show'', ''--name-status'', ''--pretty=format:'', s] = Inl details"
  shows "readDiffLines git s M sourcePaths =
     (map summarizeSource (js_slice sourcePaths 0 M),
      [Warning (''Failed to read diff for '' @ js_slice s 0 7 @ '': '' @
                (''git '' @ join '' '' [''show'', ''--name-status'', ''--pretty=format:'', s] @
                 '' failed: '' @ details) @
                ''. Falling back to file summary.'')])"
  using assms
  by (simp add: readDiffLines_def runGit_def extractDiffLines_def fallbackFileChanges_def
        diffFailure_def Let_def)

text \<open>
  C5, as the code has it. When the message and the file statistics of every commit
  can be read, \<open>buildCommitData\<close> returns the records whatever reading a diff does:
  the diff lines of a record are the lines that \<open>readDiffLines\<close> gives (the \<open>try\<close> block
  and its \<open>catch\<close>), then the summaries of the files that are not source, cut to the
  cap. When reading the diff fails, \<open>readDiffLines\<close> gives one line
  \<open>path: source change (diff omitted)\<close> per source file (up to the cap), with a
  warning. When the diff is read and yields no line, it gives the name-status listing,
  one line \<open>path: status\<close> per file, where the status is one of the five words or the
  tool's own status text; and when that listing fails too, it gives again the
  summaries of the source files, with a warning.
\<close>

theorem buildCommitData_degrades:
  assumes "\<forall>s \<in> set shas.
             (\<exists>rawMessage. git [''log'', ''-1'', ''--pretty=format:%s%n%n%b'', s] = Inr rawMessage)
             \<and> (\<exists>stats. getFileStats git s exts = Inr stats)"
  shows "(\<exists>commits lg. buildCommitData git shas M exts = (Inr commits, lg)
           \<and> list_all2
                (\<lambda>c s. sha c = s
                   \<and> (\<exists>stats. getFileStats git s exts = Inr stats
                         \<and> diffLines c =
                             js_slice (fst (readDiffLines git s M (map path (filter isSource stats))) @
                                       map summarizeNonSource
                                         (filter (\<lambda>file. \<not> isSource file) stats)) 0 M))
                commits shas)
     \<and> (\<forall>s sourcePaths details. sourcePaths \<noteq> []
            \<and> git [''show'', ''--no-color'', ''--unified=0'', ''--pretty=format:'', s] = Inl details \<longrightarrow>
          readDiffLines git s M sourcePaths =
            (map summarizeSource (js_slice sourcePaths 0 M),
             [Warning (''Failed to read diff for '' @ js_slice s 0 7 @ '': '' @
                       (''git '' @ join '' '' [''show'', ''--no-color'', ''--unified=0'', ''--pretty=format:'', s] @
                        '' failed: '' @ details) @
                       ''. Falling back to file summary.'')]))
     \<and> (\<forall>s sourcePaths diff listing. sourcePaths \<noteq> []
            \<and> git [''show'', ''--no-color'', ''--unified=0'', ''--pretty=format:'', s] = Inr diff
            \<and> diffLoop (Some (set sourcePaths)) M (splitOn [LF] diff) [] [] True = []
            \<and> git [''show'', ''--name-status'', ''--pretty=format:'', s] = Inr listing \<longrightarrow>
          readDiffLines git s M sourcePaths =
            (if trimEnd listing = [] then [] else fallbackLoop M (splitOn [LF] (trimEnd listing)) [], [])
          \<and> (\<forall>e \<in> set (fst (readDiffLines git s M sourcePaths)).
                \<exists>p st. p \<noteq> [] \<and> e = p @ '': '' @ formatFileStatus st
                  \<and> (formatFileStatus st \<in> {''renamed'', ''copied'', ''added'', ''modified'', ''deleted''}
                       \<or> formatFileStatus st = st)))
     \<and> (\<forall>s sourcePaths diff details. sourcePaths \<noteq> []
            \<and> git [''show'', ''--no-color'', ''--unified=0'', ''--pretty=format:'', s] = Inr diff
            \<and> diffLoop (Some (set sourcePaths)) M (splitOn [LF] diff) [] [] True = []
            \<and> git [''show'', ''--name-status'', ''--pretty=format:'', s] = Inl details \<longrightarrow>
          readDiffLines git s M sourcePaths =
            (map summarizeSource (js_slice sourcePaths 0 M),
             [Warning (''Failed to read diff for '' @ js_slice s 0 7 @ '': '' @
                       (''git '' @ join '' '' [''show'', ''--name-status'', ''--pretty=format:'', s] @
                        '' failed: '' @ details) @
                       ''. Falling back to file summary.'')]))"
proof (intro conjI allI impI)
  from buildCommitData_returns[OF assms]
  show "\<exists>commits lg. buildCommitData git shas M exts = (Inr commits, lg)
           \<and> list_all2
                (\<lambda>c s. sha c = s
                   \<and> (\<exists>stats. getFileStats git s exts = Inr stats
                         \<and> diffLines c =
                             js_slice (fst (readDiffLines git s M (map path (filter isSource stats))) @
                                       map summarizeNonSource
                                         (filter (\<lambda>file. \<not> isSource file) stats)) 0 M))
                commits shas" .
next
  fix s and sourcePaths :: "string list" and details
  assume "sourcePaths \<noteq> []
            \<and> git [''show'', ''--no-color'', ''--unified=0'', ''--pretty=format:'', s] = Inl details"
  then show "readDiffLines git s M sourcePaths =
            (map summarizeSource (js_slice sourcePaths 0 M),
             [Warning (''Failed to read diff for '' @ js_slice s 0 7 @ '': '' @
                       (''git '' @ join '' '' [''show'', ''--no-color'', ''--unified=0'', ''--pretty=format:'', s] @
                        '' failed: '' @ details) @
                       ''. Falling back to file summary.'')])"
    by (intro readDiffLines_diff_fails) auto
next
  fix s and sourcePaths :: "string list" and diff listing
  assume a: "sourcePaths \<noteq> []
            \<and> git [''show'', ''--no-color'', ''--unified=0'', ''--pretty=format:'', s] = Inr diff
            \<and> diffLoop (Some (set sourcePaths)) M (splitOn [LF] diff) [] [] True = []
            \<and> git [''show'', ''--name-status'', ''--pretty=format:'', s] = Inr listing"
  then show r: "readDiffLines git s M sourcePaths =
            (if trimEnd listing = [] then [] else fallbackLoop M (splitOn [LF] (trimEnd listing)) [], [])"
    by (intro readDiffLines_no_lines) auto
  show "\<forall>e \<in> set (fst (readDiffLines git s M sourcePaths)).
                \<exists>p st. p \<noteq> [] \<and> e = p @ '': '' @ formatFileStatus st
                  \<and> (formatFileStatus st \<in> {''renamed'', ''copied'', ''added'', ''modified'', ''deleted''}
                       \<or> formatFileStatus st = st)"
  proof
    fix e assume "e \<in> set (fst (readDiffLines git s M sourcePaths))"
    with r have "e \<in> set (fallbackLoop M (splitOn [LF] (trimEnd listing)) [])"
      by (simp split: if_splits)
    from fallbackLoop_entries[OF this] obtain p st where "p \<noteq> []" "e = p @ '': '' @ formatFileStatus st"
      by auto
    with formatFileStatus_cases[of st]
    show "\<exists>p st. p \<noteq> [] \<and> e = p @ '': '' @ formatFileStatus st
                  \<and> (formatFileStatus st \<in> {''renamed'', ''copied'', ''added'', ''modified'', ''deleted''}
                       \<or> formatFileStatus st = st)" by blast
  qed
next
  fix s and sourcePaths :: "string list" and diff details
  assume "sourcePaths \<noteq> []
            \<and> git [''show'', ''--no-color'', ''--unified=0'', ''--pretty=format:'', s] = Inr diff
            \<and> diffLoop (Some (set sourcePaths)) M (splitOn [LF] diff) [] [] True = []
            \<and> git [''show'', ''--name-status'', ''--pretty=format:'', s] = Inl details"
  then show "readDiffLines git s M sourcePaths =
            (map summarizeSource (js_slice sourcePaths 0 M),
             [Warning (''Failed to read diff for '' @ js_slice s 0 7 @ '': '' @
                       (''git '' @ join '' '' [''show'', ''--name-status'', ''--pretty=format:'', s] @
                        '' failed: '' @ details) @
                       ''. Falling back to file summary.'')])"
    by (intro readDiffLines_no_lines_no_listing) auto
qed

text \<open>
  C5 as stated fails: when reading the diff fails, the substitute is not the
  name-status listing, although the listing is there to be read.
\<close>

theorem buildCommitData_degrades_counterexample:
  "buildCommitData (oneCommitGit (Inl ''fatal: bad object'') (Inr exampleNameStatus))
      [''abc1234def''] 120 DEFAULT_SOURCE_EXTENSIONS =
     (Inr [\<lparr>sha = ''abc1234def'', message = ''feat: change a'',
            diffLines = [''src/a.ts: source change (diff omitted)'',
                         ''README.md: non-source change (diff omitted)'']\<rparr>],
      [Warning (''Failed to read diff for abc1234: '' @
                ''git show --no-color --unified=0 --pretty=format: abc1234def failed: '' @
                ''fatal: bad object. Falling back to file summary.'')])
   \<and> fallbackFileChanges (oneCommitGit (Inl ''fatal: bad object'') (Inr exampleNameStatus))
         ''abc1234def'' 120 =
       Inr [''src/a.ts: modified'', ''README.md: modified'']"
  by code_simp

theorem buildCommitData_degrades_witness:
  "buildCommitData (oneCommitGit (Inl ''fatal: bad object'') (Inr exampleNameStatus))
      [''abc1234def''] 120 DEFAULT_SOURCE_EXTENSIONS =
     (Inr [\<lparr>sha = ''abc1234def'', message = ''feat: change a'',
            diffLines = [''src/a.ts: source change (diff omitted)'',
                         ''README.md: non-source change (diff omitted)'']\<rparr>],
      [Warning (''Failed to read diff for abc1234: '' @
                ''git show --no-color --unified=0 --pretty=format: abc1234def failed: '' @
                ''fatal: bad object. Falling back to file summary.'')])
   \<and> readDiffLines (oneCommitGit (Inl ''fatal: bad object'') (Inr exampleNameStatus))
      ''abc1234def'' 120 [''src/a.ts''] =
     ([''src/a.ts: source change (diff omitted)''],
      [Warning (''Failed to read diff for abc1234: '' @
                ''git show --no-color --unified=0 --pretty=format: abc1234def failed: '' @
                ''fatal: bad object. Falling back to file summary.'')])
   \<and> readDiffLines (oneCommitGit (Inr []) (Inr exampleNameStatus))
      ''abc1234def'' 120 [''src/a.ts''] =
     ([''src/a.ts: modified'', ''README.md: modified''], [])"
proof -
  let ?stats = "[\<lparr>path = ''src/a.ts'', isBinary = False, isSource = True\<rparr>,
                 \<lparr>path = ''README.md'', isBinary = False, isSource = False\<rparr>]"
  let ?g1 = "oneCommitGit (Inl ''fatal: bad object'') (Inr exampleNameStatus)"
  let ?g2 = "oneCommitGit (Inr []) (Inr exampleNameStatus)"
  have m1: "?g1 [''log'', ''-1'', ''--pretty=format:%s%n%n%b'', ''abc1234def''] = Inr (''feat: change a'' @ [LF])"
    by (simp add: oneCommitGit_def)
  have m2: "?g2 [''log'', ''-1'', ''--pretty=format:%s%n%n%b'', ''abc1234def''] = Inr (''feat: change a'' @ [LF])"
    by (simp add: oneCommitGit_def)
  have s1: "getFileStats ?g1 ''abc1234def'' DEFAULT_SOURCE_EXTENSIONS = Inr ?stats" by code_simp
  have s2: "getFileStats ?g2 ''abc1234def'' DEFAULT_SOURCE_EXTENSIONS = Inr ?stats" by code_simp
  from m1 s1 have h1: "\<forall>s \<in> set [''abc1234def''].
             (\<exists>rawMessage. ?g1 [''log'', ''-1'', ''--pretty=format:%s%n%n%b'', s] = Inr rawMessage)
             \<and> (\<exists>stats. getFileStats ?g1 s DEFAULT_SOURCE_EXTENSIONS = Inr stats)" by simp
  from m2 s2 have h2: "\<forall>s \<in> set [''abc1234def''].
             (\<exists>rawMessage. ?g2 [''log'', ''-1'', ''--pretty=format:%s%n%n%b'', s] = Inr rawMessage)
             \<and> (\<exists>stats. getFileStats ?g2 s DEFAULT_SOURCE_EXTENSIONS = Inr stats)" by simp
  have d1: "[''src/a.ts''] \<noteq> [] \<and>
      ?g1 [''show'', ''--no-color'', ''--unified=0'', ''--pretty=format:'', ''abc1234def''] = Inl ''fatal: bad object''"
    by (simp add: oneCommitGit_def)
  have d2a: "diffLoop (Some (set [''src/a.ts''])) 120 (splitOn [LF] []) [] [] True = []"
    by code_simp
  have d2: "[''src/a.ts''] \<noteq> [] \<and>
      ?g2 [''show'', ''--no-color'', ''--unified=0'', ''--pretty=format:'', ''abc1234def''] = Inr []
      \<and> diffLoop (Some (set [''src/a.ts''])) 120 (splitOn [LF] []) [] [] True = []
      \<and> ?g2 [''show'', ''--name-status'', ''--pretty=format:'', ''abc1234def''] = Inr exampleNameStatus"
    using d2a by (simp add: oneCommitGit_def)
  have f: "(if trimEnd exampleNameStatus = [] then []
            else fallbackLoop 120 (splitOn [LF] (trimEnd exampleNameStatus)) []) =
           [''src/a.ts: modified'', ''README.md: modified'']" by code_simp
  have j: "map summarizeSource (js_slice [''src/a.ts''] 0 120) = [''src/a.ts: source change (diff omitted)'']"
    by code_simp
  have k: "js_slice ''abc1234def'' 0 7 = ''abc1234''" by code_simp
  have 0: "buildCommitData ?g1 [''abc1234def''] 120 DEFAULT_SOURCE_EXTENSIONS =
     (Inr [\<lparr>sha = ''abc1234def'', message = ''feat: change a'',
            diffLines = [''src/a.ts: source change (diff omitted)'',
                         ''README.md: non-source change (diff omitted)'']\<rparr>],
      [Warning (''Failed to read diff for abc1234: '' @
                ''git show --no-color --unified=0 --pretty=format: abc1234def failed: '' @
                ''fatal: bad object. Falling back to file summary.'')])" by code_simp
  from buildCommitData_degrades[OF h1, of 120] d1
  have "readDiffLines ?g1 ''abc1234def'' 120 [''src/a.ts''] =
            (map summarizeSource (js_slice [''src/a.ts''] 0 120),
             [Warning (''Failed to read diff for '' @ js_slice ''abc1234def'' 0 7 @ '': '' @
                       (''git '' @ join '' '' [''show'', ''--no-color'', ''--unified=0'', ''--pretty=format:'', ''abc1234def''] @
                        '' failed: '' @ ''fatal: bad object'') @
                       ''. Falling back to file summary.'')])"
    by blast
  then have 1: "readDiffLines ?g1 ''abc1234def'' 120 [''src/a.ts''] =
     ([''src/a.ts: source change (diff omitted)''],
      [Warning (''Failed to read diff for abc1234: '' @
                ''git show --no-color --unified=0 --pretty=format: abc1234def failed: '' @
                ''fatal: bad object. Falling back to file summary.'')])"
    unfolding j k by simp
  from buildCommitData_degrades[OF h2, of 120] d2
  have "readDiffLines ?g2 ''abc1234def'' 120 [''src/a.ts''] =
            (if trimEnd exampleNameStatus = [] then []
             else fallbackLoop 120 (splitOn [LF] (trimEnd exampleNameStatus)) [], [])"
    by blast
  then have 2: "readDiffLines ?g2 ''abc1234def'' 120 [''src/a.ts''] =
     ([''src/a.ts: modified'', ''README.md: modified''], [])"
    unfolding f .
  from 0 1 2 show ?thesis by blast
qed

section \<open>Properties of the diff extractor\<close>

lemma diffLoop_extends:
  "\<exists>later. diffLoop a M ls results f inc = results @ later"
proof (induction ls arbitrary: results f inc)
  case Nil
  show ?case by simp
next
  case (Cons raw rest)
  show ?case
  proof (cases "diffLineAction a f inc (stripCR raw)")
    case (NextLine f' inc')
    with Cons[of results f' inc'] show ?thesis by simp
  next
    case (Store e)
    from Cons[of "results @ [e]" f inc] obtain later where
      "diffLoop a M rest (results @ [e]) f inc = results @ e # later" by auto
    with Store show ?thesis by (simp add: Let_def)
  next
    case Pass
    with Cons[of results f inc] show ?thesis by simp
  qed
qed

lemma diffLineAction_Store:
  "diffLineAction a f inc line = Store e \<Longrightarrow>
     (startsWith line ''Binary files '' \<and> e = fileEntry f line)
     \<or> ((startsWith line ''+'' \<or> startsWith line ''-'') \<and> e = fileEntry f (trimmedLine line))"
  by (simp add: diffLineAction_def Let_def split: if_splits)

lemma diffLoop_entries:
  "e \<in> set (diffLoop a M ls results f inc) \<Longrightarrow>
   e \<in> set results
   \<or> (\<exists>raw \<in> set ls. \<exists>file.
         (startsWith (stripCR raw) ''Binary files '' \<and> e = fileEntry file (stripCR raw))
         \<or> ((startsWith (stripCR raw) ''+'' \<or> startsWith (stripCR raw) ''-'')
             \<and> e = fileEntry file (trimmedLine (stripCR raw))))"
proof (induction ls arbitrary: results f inc)
  case Nil
  then show ?case by simp
next
  case (Cons raw rest)
  show ?case
  proof (cases "diffLineAction a f inc (stripCR raw)")
    case (NextLine f' inc')
    with Cons.prems have "e \<in> set (diffLoop a M rest results f' inc')" by simp
    from Cons.IH[OF this] show ?thesis by auto
  next
    case (Store x)
    from diffLineAction_Store[OF Store] have x:
      "(startsWith (stripCR raw) ''Binary files '' \<and> x = fileEntry f (stripCR raw))
     \<or> ((startsWith (stripCR raw) ''+'' \<or> startsWith (stripCR raw) ''-'') \<and> x = fileEntry f (trimmedLine (stripCR raw)))" .
    from Cons.prems Store have "e \<in> set (results @ [x]) \<or> e \<in> set (diffLoop a M rest (results @ [x]) f inc)"
      by (auto simp: Let_def split: if_splits)
    with Cons.IH[of "results @ [x]" f inc] have
      "e \<in> set results \<or> e = x \<or> (\<exists>raw \<in> set rest. \<exists>file.
         (startsWith (stripCR raw) ''Binary files '' \<and> e = fileEntry file (stripCR raw))
         \<or> ((startsWith (stripCR raw) ''+'' \<or> startsWith (stripCR raw) ''-'')
             \<and> e = fileEntry file (trimmedLine (stripCR raw))))" by auto
    with x show ?thesis by auto
  next
    case Pass
    with Cons.prems have "e \<in> set results \<or> e \<in> set (diffLoop a M rest results f inc)"
      by (simp split: if_splits)
    with Cons.IH[of results f inc] show ?thesis by auto
  qed
qed

lemma diffLineAction_content:
  assumes "startsWith line ''+'' \<or> startsWith line ''-''"
    and "\<not> startsWith line ''+++''" and "\<not> startsWith line ''---''"
  shows "diffLineAction a f True line = Store (fileEntry f (trimmedLine line))"
proof (cases line)
  case Nil
  with assms(1) show ?thesis by (simp add: startsWith_def)
next
  case (Cons c cs)
  with assms(1) have c: "c = CHR ''+'' \<or> c = CHR ''-''" by (auto simp: startsWith_Cons)
  from assms(2,3) have n: "\<not> startsWith line ''+++ ''" "\<not> startsWith line ''--- ''"
    using startsWith_append[of line "''+++''" "'' ''"] startsWith_append[of line "''---''" "'' ''"]
    by auto
  from c Cons have o: "\<not> startsWith line ''diff --git ''" "\<not> startsWith line ''@@''"
    "\<not> startsWith line (CHR 0x5C # '' No newline'')" "\<not> startsWith line ''Binary files ''"
    by (auto simp: startsWith_Cons)
  from assms n o show ?thesis by (simp add: diffLineAction_def)
qed

lemma trimmedLine_long:
  "int (length line) > MAX_LINE_LENGTH \<Longrightarrow>
     trimmedLine line = take 297 line @ ''...'' \<and> length (trimmedLine line) = 300"
  by (simp add: trimmedLine_def MAX_LINE_LENGTH_def js_slice_def Let_def)

lemma trimmedLine_short:
  "int (length line) \<le> MAX_LINE_LENGTH \<Longrightarrow> trimmedLine line = line"
  by (simp add: trimmedLine_def)

text \<open>
  C2, as the code has it. A diff content line (a line that starts with \<open>+\<close> or \<open>-\<close>
  but not with \<open>+++\<close> or \<open>---\<close>, its carriage return removed) that the loop of
  \<open>extractDiffLines\<close> reaches inside an included file is stored as the next result: the
  path of the current file and \<open>": "\<close>, when a file header was seen, followed by the
  line cut to the cap. The cut line is the first 297 characters and three dots, 300
  characters in all, when the line is longer than 300, and the line untouched
  otherwise. Every entry that the loop stores is such an entry or the entry of a
  \<open>Binary files\<close> line.
\<close>

theorem extractDiffLines_stores_trimmed_line:
  assumes "line = stripCR rawLine"
    and "startsWith line ''+'' \<or> startsWith line ''-''"
    and "\<not> startsWith line ''+++''" and "\<not> startsWith line ''---''"
  shows "(\<exists>later. diffLoop allowedPaths maxLines (rawLine # rest) results currentFile True =
                    results @ fileEntry currentFile (trimmedLine line) # later)
     \<and> fileEntry currentFile (trimmedLine line) =
         (if currentFile \<noteq> [] then currentFile @ '': '' @ trimmedLine line else trimmedLine line)
     \<and> (int (length line) > 300 \<longrightarrow>
           trimmedLine line = take 297 line @ ''...'' \<and> length (trimmedLine line) = 300)
     \<and> (int (length line) \<le> 300 \<longrightarrow> trimmedLine line = line)
     \<and> (\<forall>e \<in> set (diffLoop allowedPaths maxLines (rawLine # rest) [] [] True).
           \<exists>raw \<in> set (rawLine # rest). \<exists>file.
             (startsWith (stripCR raw) ''Binary files '' \<and> e = fileEntry file (stripCR raw))
             \<or> ((startsWith (stripCR raw) ''+'' \<or> startsWith (stripCR raw) ''-'')
                 \<and> e = fileEntry file (trimmedLine (stripCR raw))))"
proof (intro conjI)
  have act: "diffLineAction allowedPaths currentFile True (stripCR rawLine) =
             Store (fileEntry currentFile (trimmedLine line))"
    using assms diffLineAction_content[of line allowedPaths currentFile] by simp
  let ?r = "results @ [fileEntry currentFile (trimmedLine line)]"
  from diffLoop_extends[of allowedPaths maxLines rest ?r currentFile True]
  obtain later where "diffLoop allowedPaths maxLines rest ?r currentFile True = ?r @ later" by blast
  with act show "\<exists>later. diffLoop allowedPaths maxLines (rawLine # rest) results currentFile True =
                    results @ fileEntry currentFile (trimmedLine line) # later"
    by (auto simp: Let_def)
  show "fileEntry currentFile (trimmedLine line) =
         (if currentFile \<noteq> [] then currentFile @ '': '' @ trimmedLine line else trimmedLine line)"
    by (simp add: fileEntry_def)
  show "int (length line) > 300 \<longrightarrow>
           trimmedLine line = take 297 line @ ''...'' \<and> length (trimmedLine line) = 300"
    using trimmedLine_long[of line] by (simp add: MAX_LINE_LENGTH_def)
  show "int (length line) \<le> 300 \<longrightarrow> trimmedLine line = line"
    using trimmedLine_short[of line] by (simp add: MAX_LINE_LENGTH_def)
  show "\<forall>e \<in> set (diffLoop allowedPaths maxLines (rawLine # rest) [] [] True).
           \<exists>raw \<in> set (rawLine # rest). \<exists>file.
             (startsWith (stripCR raw) ''Binary files '' \<and> e = fileEntry file (stripCR raw))
             \<or> ((startsWith (stripCR raw) ''+'' \<or> startsWith (stripCR raw) ''-'')
                 \<and> e = fileEntry file (trimmedLine (stripCR raw)))"
  proof
    fix e assume "e \<in> set (diffLoop allowedPaths maxLines (rawLine # rest) [] [] True)"
    from diffLoop_entries[OF this]
    show "\<exists>raw \<in> set (rawLine # rest). \<exists>file.
             (startsWith (stripCR raw) ''Binary files '' \<and> e = fileEntry file (stripCR raw))
             \<or> ((startsWith (stripCR raw) ''+'' \<or> startsWith (stripCR raw) ''-'')
                 \<and> e = fileEntry file (trimmedLine (stripCR raw)))" by simp
  qed
qed

text \<open>
  C2 as stated fails: in a diff, a content line comes after the header of its file,
  so the stored line carries the path and is longer than the cap.
\<close>

theorem extractDiffLines_stores_trimmed_line_counterexample:
  "extractDiffLines (\<lambda>args. Inl ''fatal'') longLineDiff 120 ''abc1234def'' (Some {''src/a.ts''}) =
     Inr [''src/a.ts: +'' @ replicate 296 (CHR ''x'') @ ''...'']
   \<and> length (''src/a.ts: +'' @ replicate 296 (CHR ''x'') @ ''...'') = 310"
  by code_simp

theorem extractDiffLines_stores_trimmed_line_witness:
  "diffLoop None 120 [''+'' @ replicate 499 (CHR ''x''), ''-short'' @ [CR]] [] [] True =
     [''+'' @ replicate 296 (CHR ''x'') @ ''...'', ''-short'']
   \<and> trimmedLine (''+'' @ replicate 499 (CHR ''x'')) = ''+'' @ replicate 296 (CHR ''x'') @ ''...''
   \<and> length (trimmedLine (''+'' @ replicate 499 (CHR ''x''))) = 300
   \<and> trimmedLine ''-short'' = ''-short''"
proof -
  let ?long = "''+'' @ replicate 499 (CHR ''x'')"
  have s1: "?long = stripCR ?long" by code_simp
  have s2: "''-short'' = stripCR (''-short'' @ [CR])" by code_simp
  have c1: "startsWith ?long ''+'' \<or> startsWith ?long ''-''" by code_simp
  have c2: "\<not> startsWith ?long ''+++''" "\<not> startsWith ?long ''---''" by code_simp+
  have d1: "startsWith ''-short'' ''+'' \<or> startsWith ''-short'' ''-''" by code_simp
  have d2: "\<not> startsWith ''-short'' ''+++''" "\<not> startsWith ''-short'' ''---''" by code_simp+
  have l1: "int (length ?long) > 300" by simp
  have l2: "int (length ''-short'') \<le> 300" by simp
  have t: "take 297 ?long @ ''...'' = ''+'' @ replicate 296 (CHR ''x'') @ ''...''" by code_simp
  have e: "diffLoop None 120 [?long, ''-short'' @ [CR]] [] [] True =
     [''+'' @ replicate 296 (CHR ''x'') @ ''...'', ''-short'']" by code_simp
  from extractDiffLines_stores_trimmed_line[OF s1 c1 c2, of None 120 "[''-short'' @ [CR]]" "[]" "[]"] l1
  have a: "trimmedLine ?long = take 297 ?long @ ''...'' \<and> length (trimmedLine ?long) = 300"
    by blast
  from extractDiffLines_stores_trimmed_line[OF s2 d1 d2, of None 120 "[]" "[]" "[]"] l2
  have b: "trimmedLine ''-short'' = ''-short''" by blast
  from a t have "trimmedLine ?long = ''+'' @ replicate 296 (CHR ''x'') @ ''...''" by simp
  with a b e show ?thesis by blast
qed

section \<open>Properties of the reduction of an oversized commit\<close>

lemma trimText_length_le: "length (trimText t n) \<le> length t"
  by (auto simp: trimText_def js_slice_0_length js_slice_prefix)

lemma formatCommitBlock_message_length:
  "length (formatCommitBlock (c\<lparr>message := m, diffLines := d\<rparr>)) =
   length (formatCommitBlock (c\<lparr>message := [], diffLines := d\<rparr>)) + length m"
  by (simp add: formatCommitBlock_def Let_def)

lemma dropDiffLines_result:
  "dropDiffLines c m B kept ch = (kept', ch') \<Longrightarrow>
     (int (length (formatCommitBlock (c\<lparr>message := m, diffLines := kept'\<rparr>))) \<le> B \<or> kept' = [])
     \<and> (\<exists>n. kept' = take n kept)"
proof (induction c m B kept ch rule: dropDiffLines.induct)
  case (1 commit msg maxChars kept changed)
  show ?case
  proof (cases "int (length (formatCommitBlock (commit\<lparr>message := msg, diffLines := kept\<rparr>))) > maxChars \<and> kept \<noteq> []")
    case True
    with "1.prems" have r: "dropDiffLines commit msg maxChars (butlast kept) True = (kept', ch')"
      by (simp add: dropDiffLines.simps[of commit msg maxChars kept])
    from "1.IH"[OF True r] obtain n where
      a: "(int (length (formatCommitBlock (commit\<lparr>message := msg, diffLines := kept'\<rparr>))) \<le> maxChars \<or> kept' = [])"
      and b: "kept' = take n (butlast kept)" by auto
    from b have "kept' = take (min n (length kept - 1)) kept"
      by (simp add: butlast_conv_take)
    with a show ?thesis by blast
  next
    case False
    with "1.prems" have "kept' = kept"
      by (simp add: dropDiffLines.simps[of commit msg maxChars kept])
    with False show ?thesis by (auto intro: exI[of _ "length kept"])
  qed
qed

lemma truncateCommit_result:
  "truncateCommit c B = (r, lg) \<Longrightarrow>
     sha r = sha c \<and>
     (int (length (formatCommitBlock r)) \<le> B \<or>
      r = c\<lparr>message := trimText (trimText (message c) (max 200 (B div 4))) (max 50 (B - 200)),
            diffLines := []\<rparr>)"
proof -
  assume t: "truncateCommit c B = (r, lg)"
  define m1 where "m1 = trimText (message c) (max 200 (B div 4))"
  obtain k2 c2 where d: "dropDiffLines c m1 B (diffLines c) (int (length (message c)) > max 200 (B div 4)) = (k2, c2)"
    by (cases "dropDiffLines c m1 B (diffLines c) (int (length (message c)) > max 200 (B div 4))") auto
  have m1': "(if int (length (message c)) > max 200 (B div 4) then trimText (message c) (max 200 (B div 4)) else message c) = m1"
    by (auto simp: m1_def trimText_def)
  from dropDiffLines_result[OF d]
  have fit: "int (length (formatCommitBlock (c\<lparr>message := m1, diffLines := k2\<rparr>))) \<le> B \<or> k2 = []" by simp
  show ?thesis
  proof (cases "int (length (formatCommitBlock (c\<lparr>message := m1, diffLines := k2\<rparr>))) > B")
    case True
    with t d m1' show ?thesis
      by (auto simp: truncateCommit_def Let_def m1_def split: if_splits prod.splits)
  next
    case False
    with t d m1' show ?thesis
      by (auto simp: truncateCommit_def Let_def m1_def split: if_splits prod.splits)
  qed
qed


lemma trimText_form:
  "3 < n \<Longrightarrow> trimText t n = t \<or> (trimText t n = take (nat (n - 3)) t @ ''...'' \<and> n < int (length t))"
  by (auto simp: trimText_def js_slice_prefix)

lemma trimText_twice_form:
  assumes "3 < a" "3 < b"
  shows "trimText (trimText t a) b = t \<or> (\<exists>k. trimText (trimText t a) b = take k t @ ''...'')"
proof -
  from trimText_form[OF assms(1), of t] show ?thesis
  proof
    assume i: "trimText t a = t"
    from trimText_form[OF assms(2), of t] i show ?thesis by auto
  next
    assume i: "trimText t a = take (nat (a - 3)) t @ ''...'' \<and> a < int (length t)"
    from trimText_form[OF assms(2), of "trimText t a"] show ?thesis
    proof
      assume "trimText (trimText t a) b = trimText t a"
      with i show ?thesis by auto
    next
      assume o: "trimText (trimText t a) b = take (nat (b - 3)) (trimText t a) @ ''...'' \<and> b < int (length (trimText t a))"
      from i assms have la: "length (take (nat (a - 3)) t) = nat (a - 3)" by auto
      with i assms have "int (length (trimText t a)) = a" by auto
      with o have "b < a" by simp
      with la assms have "take (nat (b - 3)) (take (nat (a - 3)) t @ ''...'') = take (nat (b - 3)) t"
        by (simp add: min_def)
      with o i show ?thesis by auto
    qed
  qed
qed

lemma truncateCommit_shape:
  assumes t: "truncateCommit c B = (r, lg)"
  shows "r = c\<lparr>message := message r, diffLines := diffLines r\<rparr>"
    and "message r = message c \<or> (\<exists>k. message r = take k (message c) @ ''...'')"
    and "\<exists>n. diffLines r = take n (diffLines c)"
    and "lg = [] \<or> lg = [truncationNotice c]"
proof -
  define m1 where "m1 = trimText (message c) (max 200 (B div 4))"
  obtain k2 c2 where d: "dropDiffLines c m1 B (diffLines c) (int (length (message c)) > max 200 (B div 4)) = (k2, c2)"
    by (cases "dropDiffLines c m1 B (diffLines c) (int (length (message c)) > max 200 (B div 4))") auto
  have m1': "(if int (length (message c)) > max 200 (B div 4) then trimText (message c) (max 200 (B div 4)) else message c) = m1"
    by (auto simp: m1_def trimText_def)
  from dropDiffLines_result[OF d] obtain n where n: "k2 = take n (diffLines c)" by blast
  have r: "r = c\<lparr>message := m1, diffLines := k2\<rparr> \<or>
           r = c\<lparr>message := trimText m1 (max 50 (B - 200)), diffLines := []\<rparr>"
    using t d m1' by (auto simp: truncateCommit_def Let_def m1_def split: if_splits prod.splits)
  from r show "r = c\<lparr>message := message r, diffLines := diffLines r\<rparr>" by auto
  have f1: "m1 = message c \<or> (\<exists>k. m1 = take k (message c) @ ''...'')"
    using trimText_form[of "max 200 (B div 4)" "message c"] by (auto simp: m1_def)
  have f2: "trimText m1 (max 50 (B - 200)) = message c \<or> (\<exists>k. trimText m1 (max 50 (B - 200)) = take k (message c) @ ''...'')"
    unfolding m1_def by (rule trimText_twice_form) auto
  from r f1 f2 show "message r = message c \<or> (\<exists>k. message r = take k (message c) @ ''...'')" by auto
  from r n show "\<exists>n. diffLines r = take n (diffLines c)" by (auto intro: exI[of _ 0])
  from t d m1' show "lg = [] \<or> lg = [truncationNotice c]"
    by (auto simp: truncateCommit_def Let_def m1_def split: if_splits prod.splits)
qed

lemma dropDiffLines_steps:
  "dropDiffLines c m B kept ch =
     (take (length kept - dropDiffLinesSteps c m B kept) kept,
      ch \<or> 0 < dropDiffLinesSteps c m B kept)"
proof (induction c m B kept ch rule: dropDiffLines.induct)
  case (1 commit msg maxChars kept changed)
  show ?case
  proof (cases "int (length (formatCommitBlock (commit\<lparr>message := msg, diffLines := kept\<rparr>))) > maxChars \<and> kept \<noteq> []")
    case True
    then have s: "dropDiffLinesSteps commit msg maxChars kept =
                  Suc (dropDiffLinesSteps commit msg maxChars (butlast kept))"
      by (simp add: dropDiffLinesSteps.simps[of commit msg maxChars kept])
    from True have d: "dropDiffLines commit msg maxChars kept changed =
                  dropDiffLines commit msg maxChars (butlast kept) True"
      by (simp add: dropDiffLines.simps[of commit msg maxChars kept])
    have "take (length (butlast kept) - dropDiffLinesSteps commit msg maxChars (butlast kept)) (butlast kept) =
          take (length kept - Suc (dropDiffLinesSteps commit msg maxChars (butlast kept))) kept"
      by (simp add: butlast_conv_take min_def)
    with "1.IH"[OF True] s d show ?thesis by simp
  next
    case False
    then have "dropDiffLinesSteps commit msg maxChars kept = 0"
      by (auto simp: dropDiffLinesSteps.simps[of commit msg maxChars kept])
    moreover from False have "dropDiffLines commit msg maxChars kept changed = (kept, changed)"
      by (auto simp: dropDiffLines.simps[of commit msg maxChars kept])
    ultimately show ?thesis by simp
  qed
qed

lemma dropDiffLinesSteps_bound:
  "dropDiffLinesSteps c m B kept \<le> length kept"
proof (induction c m B kept rule: dropDiffLinesSteps.induct)
  case (1 commit msg maxChars kept)
  show ?case
  proof (cases "int (length (formatCommitBlock (commit\<lparr>message := msg, diffLines := kept\<rparr>))) > maxChars \<and> kept \<noteq> []")
    case True
    with "1.IH" have "dropDiffLinesSteps commit msg maxChars (butlast kept) \<le> length (butlast kept)" by simp
    moreover from True have "dropDiffLinesSteps commit msg maxChars kept =
                  Suc (dropDiffLinesSteps commit msg maxChars (butlast kept))"
      by (simp add: dropDiffLinesSteps.simps[of commit msg maxChars kept])
    moreover from True have "Suc (length (butlast kept)) = length kept" by (cases kept) auto
    ultimately show ?thesis by linarith
  next
    case False
    then show ?thesis by (auto simp: dropDiffLinesSteps.simps[of commit msg maxChars kept])
  qed
qed

lemma dropDiffLinesSteps_over:
  "j < dropDiffLinesSteps c m B kept \<Longrightarrow>
   B < int (length (formatCommitBlock (c\<lparr>message := m, diffLines := take (length kept - j) kept\<rparr>)))"
proof (induction c m B kept arbitrary: j rule: dropDiffLinesSteps.induct)
  case (1 commit msg maxChars kept)
  show ?case
  proof (cases "int (length (formatCommitBlock (commit\<lparr>message := msg, diffLines := kept\<rparr>))) > maxChars \<and> kept \<noteq> []")
    case True
    show ?thesis
    proof (cases j)
      case 0
      with True show ?thesis by simp
    next
      case (Suc i)
      with "1.prems" True have "i < dropDiffLinesSteps commit msg maxChars (butlast kept)"
        by (simp add: dropDiffLinesSteps.simps[of commit msg maxChars kept])
      from "1.IH"[OF True this]
      have "maxChars < int (length (formatCommitBlock (commit\<lparr>message := msg,
               diffLines := take (length (butlast kept) - i) (butlast kept)\<rparr>)))" .
      moreover have "take (length (butlast kept) - i) (butlast kept) = take (length kept - j) kept"
        using Suc by (simp add: butlast_conv_take min_def)
      ultimately show ?thesis by simp
    qed
  next
    case False
    with "1.prems" show ?thesis by (auto simp: dropDiffLinesSteps.simps[of commit msg maxChars kept])
  qed
qed


lemma truncateCommit_unfold:
  assumes "long = (int (length (message c)) > max 200 (B div 4))"
    and "dropDiffLines c (trimText (message c) (max 200 (B div 4))) B (diffLines c) long
           = (kept2, changed2)"
  shows "truncateCommit c B =
     (if B < int (length (formatCommitBlock
                (c\<lparr>message := trimText (message c) (max 200 (B div 4)), diffLines := kept2\<rparr>)))
      then (c\<lparr>message := trimText (trimText (message c) (max 200 (B div 4))) (max 50 (B - 200)),
               diffLines := []\<rparr>, [truncationNotice c])
      else (c\<lparr>message := trimText (message c) (max 200 (B div 4)), diffLines := kept2\<rparr>,
            if changed2 then [truncationNotice c] else []))"
proof (cases long)
  case True
  with assms(2) have d: "dropDiffLines c (trimText (message c) (max 200 (B div 4))) B (diffLines c) True
                   = (kept2, changed2)" by simp
  from True assms(1) have "int (length (message c)) > max 200 (B div 4)" by simp
  with d show ?thesis by (auto simp: truncateCommit_def Let_def)
next
  case False
  with assms(1) have short: "\<not> int (length (message c)) > max 200 (B div 4)" by simp
  then have same: "trimText (message c) (max 200 (B div 4)) = message c"
    by (auto simp: trimText_def)
  from assms(2) False have d: "dropDiffLines c (message c) B (diffLines c) False = (kept2, changed2)"
    unfolding same by simp
  from short d show ?thesis unfolding same by (auto simp: truncateCommit_def Let_def)
qed

text \<open>
  C4, as the code has it. For a commit whose block is over the budget \<open>B\<close>,
  \<open>truncateCommit\<close> works in this order. First the message is cut to
  \<open>max 200 (B div 4)\<close> (\<open>m1\<close>). Then diff lines are dropped from the end, one at a
  time, each one only while the block measured anew is still over \<open>B\<close>: \<open>n\<close> lines
  go, at most as many as there are, and \<open>kept\<close> stay. Dropping all diff lines then has
  nothing left to do: if the block is still over \<open>B\<close>, no diff line is left. Last, if
  the block is still over \<open>B\<close>, the message is cut again, to \<open>max 50 (B - 200)\<close>. The
  whole reduction logs one notice that names the commit, not one for each step.
\<close>

theorem truncateCommit_reduces_in_order:
  assumes "B < int (length (formatCommitBlock c))"
    and "m1 = trimText (message c) (max 200 (B div 4))"
    and "n = dropDiffLinesSteps c m1 B (diffLines c)"
    and "kept = take (length (diffLines c) - n) (diffLines c)"
  shows "n \<le> length (diffLines c)
     \<and> (\<forall>j < n. B < int (length (formatCommitBlock
                       (c\<lparr>message := m1,
                          diffLines := take (length (diffLines c) - j) (diffLines c)\<rparr>))))
     \<and> (B < int (length (formatCommitBlock (c\<lparr>message := m1, diffLines := kept\<rparr>))) \<longrightarrow> kept = [])
     \<and> truncateCommit c B =
         (if B < int (length (formatCommitBlock (c\<lparr>message := m1, diffLines := kept\<rparr>)))
          then c\<lparr>message := trimText m1 (max 50 (B - 200)), diffLines := []\<rparr>
          else c\<lparr>message := m1, diffLines := kept\<rparr>,
          [truncationNotice c])"
proof (intro conjI)
  let ?long = "int (length (message c)) > max 200 (B div 4)"
  let ?over = "B < int (length (formatCommitBlock (c\<lparr>message := m1, diffLines := kept\<rparr>)))"
  show "n \<le> length (diffLines c)"
    unfolding assms(3) by (rule dropDiffLinesSteps_bound)
  show "\<forall>j < n. B < int (length (formatCommitBlock
                       (c\<lparr>message := m1,
                          diffLines := take (length (diffLines c) - j) (diffLines c)\<rparr>)))"
    unfolding assms(3) by (auto intro: dropDiffLinesSteps_over)
  have d: "dropDiffLines c m1 B (diffLines c) ?long = (kept, ?long \<or> 0 < n)"
    unfolding assms(3,4) by (rule dropDiffLines_steps)
  from dropDiffLines_result[OF d] show stop: "?over \<longrightarrow> kept = []" by auto
  have changed: "?long \<or> 0 < n \<or> ?over"
  proof (rule ccontr)
    assume no: "\<not> (?long \<or> 0 < n \<or> ?over)"
    then have "m1 = message c" by (auto simp: assms(2) trimText_def)
    moreover from no assms(4) have "kept = diffLines c" by simp
    ultimately have "c\<lparr>message := m1, diffLines := kept\<rparr> = c" by simp
    with assms(1) no show False by simp
  qed
  from d have d': "dropDiffLines c (trimText (message c) (max 200 (B div 4))) B (diffLines c) ?long
                   = (kept, ?long \<or> 0 < n)" unfolding assms(2) .
  have u: "truncateCommit c B =
     (if ?over
      then (c\<lparr>message := trimText m1 (max 50 (B - 200)), diffLines := []\<rparr>, [truncationNotice c])
      else (c\<lparr>message := m1, diffLines := kept\<rparr>,
            if ?long \<or> 0 < n then [truncationNotice c] else []))"
    unfolding assms(2) by (rule truncateCommit_unfold[OF refl d'])
  show "truncateCommit c B =
         (if ?over
          then c\<lparr>message := trimText m1 (max 50 (B - 200)), diffLines := []\<rparr>
          else c\<lparr>message := m1, diffLines := kept\<rparr>,
          [truncationNotice c])"
  proof (cases ?over)
    case True
    with u show ?thesis by simp
  next
    case False
    with changed have "?long \<or> 0 < n" by simp
    with False u show ?thesis by simp
  qed
qed

text \<open>
  C4 as stated fails: here the message is cut and two diff lines are dropped, three
  reduction steps, and one notice is logged.
\<close>

theorem truncateCommit_one_notice_counterexample:
  "fst (truncateCommit commitOversized 1000) =
     commitOversized\<lparr>message := replicate 247 (CHR ''m'') @ ''...'',
                      diffLines := take 3 (diffLines commitOversized)\<rparr>
   \<and> dropDiffLinesSteps commitOversized
         (trimText (message commitOversized) (max 200 (1000 div 4))) 1000
         (diffLines commitOversized) = 2
   \<and> snd (truncateCommit commitOversized 1000) =
       [Warning ''Commit fedcba9 truncated to fit prompt budget.'']"
  by code_simp

theorem truncateCommit_reduces_in_order_witness:
  "truncateCommit commitOversized 1000 =
     (commitOversized\<lparr>message := replicate 247 (CHR ''m'') @ ''...'',
                       diffLines := take 3 (diffLines commitOversized)\<rparr>,
      [truncationNotice commitOversized])
   \<and> truncateCommit commitSecond 100 = (commitSecond, [truncationNotice commitSecond])"
proof -
  have b1: "1000 < int (length (formatCommitBlock commitOversized))" by code_simp
  have m1: "replicate 247 (CHR ''m'') @ ''...'' =
            trimText (message commitOversized) (max 200 (1000 div 4))" by code_simp
  have n1: "2 = dropDiffLinesSteps commitOversized (replicate 247 (CHR ''m'') @ ''...'') 1000
                  (diffLines commitOversized)" by code_simp
  have k1: "take 3 (diffLines commitOversized) =
            take (length (diffLines commitOversized) - 2) (diffLines commitOversized)" by code_simp
  have o1: "\<not> 1000 < int (length (formatCommitBlock
              (commitOversized\<lparr>message := replicate 247 (CHR ''m'') @ ''...'',
                               diffLines := take 3 (diffLines commitOversized)\<rparr>)))" by code_simp
  from truncateCommit_reduces_in_order[OF b1 m1 n1 k1] o1
  have 1: "truncateCommit commitOversized 1000 =
     (commitOversized\<lparr>message := replicate 247 (CHR ''m'') @ ''...'',
                       diffLines := take 3 (diffLines commitOversized)\<rparr>,
      [truncationNotice commitOversized])" by simp
  have b2: "100 < int (length (formatCommitBlock commitSecond))" by code_simp
  have m2: "''fix: second'' = trimText (message commitSecond) (max 200 (100 div 4))" by code_simp
  have n2: "0 = dropDiffLinesSteps commitSecond ''fix: second'' 100 (diffLines commitSecond)"
    by code_simp
  have k2: "[] = take (length (diffLines commitSecond) - 0) (diffLines commitSecond)" by code_simp
  have o2: "100 < int (length (formatCommitBlock
              (commitSecond\<lparr>message := ''fix: second'', diffLines := []\<rparr>)))" by code_simp
  have t2: "trimText ''fix: second'' (max 50 (100 - 200)) = ''fix: second''" by code_simp
  have c2: "commitSecond\<lparr>message := ''fix: second'', diffLines := []\<rparr> = commitSecond"
    by (simp add: commitSecond_def)
  from truncateCommit_reduces_in_order[OF b2 m2 n2 k2] o2
  have "truncateCommit commitSecond 100 =
     (commitSecond\<lparr>message := trimText ''fix: second'' (max 50 (100 - 200)), diffLines := []\<rparr>,
      [truncationNotice commitSecond])" by simp
  then have 2: "truncateCommit commitSecond 100 = (commitSecond, [truncationNotice commitSecond])"
    unfolding t2 c2 .
  from 1 2 show ?thesis by blast
qed

section \<open>Properties of the chunking planner\<close>

lemma chunkCandidate_result:
  assumes "chunkCandidate B c = (r, lg)"
  shows "int (length (formatCommitBlock r)) \<le> B \<or>
         (r = c\<lparr>message := trimText (trimText (message c) (max 200 (B div 4))) (max 50 (B - 200)),
                diffLines := []\<rparr>
          \<and> B < int (length (formatCommitBlock r))
          \<and> B < int (length (formatCommitBlock (c\<lparr>diffLines := []\<rparr>))))"
proof (cases "int (length (formatCommitBlock c)) > B")
  case False
  with assms show ?thesis by (auto simp: chunkCandidate_def)
next
  case True
  with assms have t: "truncateCommit c B = (r, lg)" by (simp add: chunkCandidate_def)
  show ?thesis
  proof (cases "int (length (formatCommitBlock r)) \<le> B")
    case True
    then show ?thesis by simp
  next
    case False
    with truncateCommit_result[OF t] have r: "r = c\<lparr>message := trimText (trimText (message c) (max 200 (B div 4))) (max 50 (B - 200)), diffLines := []\<rparr>"
      by auto
    have le: "length (trimText (trimText (message c) (max 200 (B div 4))) (max 50 (B - 200))) \<le> length (message c)"
      using trimText_length_le[of "trimText (message c) (max 200 (B div 4))" "max 50 (B - 200)"]
        trimText_length_le[of "message c" "max 200 (B div 4)"] by linarith
    have a: "length (formatCommitBlock r) =
        length (formatCommitBlock (c\<lparr>message := [], diffLines := []\<rparr>)) +
        length (trimText (trimText (message c) (max 200 (B div 4))) (max 50 (B - 200)))"
      unfolding r by (rule formatCommitBlock_message_length)
    have b: "length (formatCommitBlock (c\<lparr>diffLines := []\<rparr>)) =
        length (formatCommitBlock (c\<lparr>message := [], diffLines := []\<rparr>)) + length (message c)"
      by (simp add: formatCommitBlock_def Let_def)
    from a b le have "length (formatCommitBlock r) \<le> length (formatCommitBlock (c\<lparr>diffLines := []\<rparr>))"
      by linarith
    with False r show ?thesis by auto
  qed
qed

lemma chunkText_length:
  "chunk \<noteq> [] \<Longrightarrow>
   int (length (chunkText chunk)) + 2 = (\<Sum>r\<leftarrow>chunk. int (length (formatCommitBlock r)) + 2)"
proof (induction chunk rule: list_nonempty_induct)
  case (single x)
  show ?case by (simp add: chunkText_def)
next
  case (cons x xs)
  then obtain y ys where "xs = y # ys" by (cases xs) auto
  with cons show ?case by (simp add: chunkText_def)
qed

lemma chunkLoop_concat:
  "chunkLoop B cs chunks cur sz lg = (chunks', cur', lg') \<Longrightarrow>
   concat chunks' @ cur' = concat chunks @ cur @ map (\<lambda>c. fst (chunkCandidate B c)) cs"
  by (induction cs arbitrary: chunks cur sz lg)
     (auto simp: Let_def split: prod.splits if_splits)

lemma chunkLoop_nonempty:
  "chunkLoop B cs chunks cur sz lg = (chunks', cur', lg') \<Longrightarrow>
   [] \<notin> set chunks \<Longrightarrow> [] \<notin> set chunks'"
  by (induction cs arbitrary: chunks cur sz lg)
     (auto simp: Let_def split: prod.splits if_splits)

lemma chunkLoop_chunks:
  assumes "chunkLoop B cs chunks cur sz lg = (chunks', cur', lg')"
    and "\<forall>ch \<in> set chunks. P ch"
    and "sz = (\<Sum>r\<leftarrow>cur. int (length (formatCommitBlock r)) + 2)"
    and "cur \<noteq> [] \<longrightarrow> P cur"
    and "\<forall>c \<in> set cs. P [fst (chunkCandidate B c)]"
    and "\<forall>ch. ch \<noteq> [] \<and> (\<Sum>r\<leftarrow>ch. int (length (formatCommitBlock r)) + 2) \<le> B \<longrightarrow> P ch"
  shows "(\<forall>ch \<in> set chunks'. P ch) \<and> (cur' \<noteq> [] \<longrightarrow> P cur')"
  using assms
proof (induction cs arbitrary: chunks cur sz lg)
  case Nil
  then show ?case by auto
next
  case (Cons c cs)
  obtain cand nt where cd: "chunkCandidate B c = (cand, nt)" by (cases "chunkCandidate B c") auto
  let ?bl = "int (length (formatCommitBlock cand))"
  from Cons.prems(5) cd have pc: "P [cand]" by auto
  show ?case
  proof (cases "cur \<noteq> [] \<and> sz + ?bl + 2 > B")
    case True
    with Cons.prems(1) cd have
      run: "chunkLoop B cs (chunks @ [cur]) [cand] (0 + ?bl + 2) (lg @ nt) = (chunks', cur', lg')"
      by (simp add: Let_def)
    show ?thesis
    proof (rule Cons.IH[OF run])
      from Cons.prems(2,4) True show "\<forall>ch\<in>set (chunks @ [cur]). P ch" by auto
      show "0 + ?bl + 2 = (\<Sum>r\<leftarrow>[cand]. int (length (formatCommitBlock r)) + 2)" by simp
      from pc show "[cand] \<noteq> [] \<longrightarrow> P [cand]" by simp
      from Cons.prems(5) show "\<forall>c\<in>set cs. P [fst (chunkCandidate B c)]" by simp
      from Cons.prems(6) show "\<forall>ch. ch \<noteq> [] \<and> (\<Sum>r\<leftarrow>ch. int (length (formatCommitBlock r)) + 2) \<le> B \<longrightarrow> P ch" .
    qed
  next
    case False
    with Cons.prems(1) cd have
      run: "chunkLoop B cs chunks (cur @ [cand]) (sz + ?bl + 2) (lg @ nt) = (chunks', cur', lg')"
      by (auto simp: Let_def)
    show ?thesis
    proof (rule Cons.IH[OF run])
      from Cons.prems(2) show "\<forall>ch\<in>set chunks. P ch" .
      from Cons.prems(3) show sz': "sz + ?bl + 2 = (\<Sum>r\<leftarrow>cur @ [cand]. int (length (formatCommitBlock r)) + 2)"
        by simp
      show "cur @ [cand] \<noteq> [] \<longrightarrow> P (cur @ [cand])"
      proof (cases "cur = []")
        case True
        with pc show ?thesis by simp
      next
        case False
        with \<open>\<not> (cur \<noteq> [] \<and> sz + ?bl + 2 > B)\<close> have "sz + ?bl + 2 \<le> B" by simp
        with sz' Cons.prems(6) show ?thesis by auto
      qed
      from Cons.prems(5) show "\<forall>c\<in>set cs. P [fst (chunkCandidate B c)]" by simp
      from Cons.prems(6) show "\<forall>ch. ch \<noteq> [] \<and> (\<Sum>r\<leftarrow>ch. int (length (formatCommitBlock r)) + 2) \<le> B \<longrightarrow> P ch" .
    qed
  qed
qed

text \<open>
  C1, as the code has it. The chunks, concatenated in order, are the commits in their
  order with each commit whose block is over the budget \<open>B\<close> replaced by its
  truncation (\<open>chunkCandidate\<close>); when no block is over the budget they are the
  original sequence itself. The text of every chunk (its blocks, joined as in the
  prompt) is at most \<open>B\<close> long, except for a chunk of one commit that was reduced as
  far as the truncation goes (no diff lines, the message cut twice) and is still over
  \<open>B\<close>; the block of that commit with its whole message and no diff lines is over
  \<open>B\<close> too.
\<close>

theorem chunkCommits_concat_and_size:
  "concat (fst (chunkCommits commits B)) = map (\<lambda>c. fst (chunkCandidate B c)) commits
   \<and> ((\<forall>c \<in> set commits. int (length (formatCommitBlock c)) \<le> B) \<longrightarrow>
        concat (fst (chunkCommits commits B)) = commits)
   \<and> (\<forall>chunk \<in> set (fst (chunkCommits commits B)).
        int (length (chunkText chunk)) \<le> B
        \<or> (\<exists>c \<in> set commits.
              chunk = [c\<lparr>message := trimText (trimText (message c) (max 200 (B div 4)))
                                        (max 50 (B - 200)),
                         diffLines := []\<rparr>]
              \<and> B < int (length (chunkText chunk))
              \<and> B < int (length (formatCommitBlock (c\<lparr>diffLines := []\<rparr>)))))"
proof -
  obtain chunks cur lg where run: "chunkLoop B commits [] [] 0 [] = (chunks, cur, lg)"
    by (cases "chunkLoop B commits [] [] 0 []") auto
  then have res: "fst (chunkCommits commits B) = (if cur \<noteq> [] then chunks @ [cur] else chunks)"
    by (simp add: chunkCommits_def)
  from chunkLoop_concat[OF run] have cc: "concat chunks @ cur = map (\<lambda>c. fst (chunkCandidate B c)) commits"
    by simp
  with res have 1: "concat (fst (chunkCommits commits B)) = map (\<lambda>c. fst (chunkCandidate B c)) commits"
    by auto
  have 2: "(\<forall>c \<in> set commits. int (length (formatCommitBlock c)) \<le> B) \<longrightarrow>
        concat (fst (chunkCommits commits B)) = commits"
  proof
    assume "\<forall>c \<in> set commits. int (length (formatCommitBlock c)) \<le> B"
    then have "map (\<lambda>c. fst (chunkCandidate B c)) commits = commits"
      by (induction commits) (auto simp: chunkCandidate_def)
    with 1 show "concat (fst (chunkCommits commits B)) = commits" by simp
  qed
  define P where "P = (\<lambda>chunk. int (length (chunkText chunk)) \<le> B
        \<or> (\<exists>c \<in> set commits.
              chunk = [c\<lparr>message := trimText (trimText (message c) (max 200 (B div 4)))
                                        (max 50 (B - 200)),
                         diffLines := []\<rparr>]
              \<and> B < int (length (chunkText chunk))
              \<and> B < int (length (formatCommitBlock (c\<lparr>diffLines := []\<rparr>)))))"
  have single: "\<forall>c \<in> set commits. P [fst (chunkCandidate B c)]"
  proof
    fix c assume c: "c \<in> set commits"
    obtain r l where rl: "chunkCandidate B c = (r, l)" by (cases "chunkCandidate B c") auto
    from chunkCandidate_result[OF rl] c rl show "P [fst (chunkCandidate B c)]"
      unfolding P_def by (auto simp: chunkText_def)
  qed
  have multi: "\<forall>ch. ch \<noteq> [] \<and> (\<Sum>r\<leftarrow>ch. int (length (formatCommitBlock r)) + 2) \<le> B \<longrightarrow> P ch"
  proof (intro allI impI)
    fix ch assume a: "ch \<noteq> [] \<and> (\<Sum>r\<leftarrow>ch. int (length (formatCommitBlock r)) + 2) \<le> B"
    with chunkText_length[of ch] have "int (length (chunkText ch)) \<le> B" by linarith
    then show "P ch" by (simp add: P_def)
  qed
  have "(\<forall>ch \<in> set chunks. P ch) \<and> (cur \<noteq> [] \<longrightarrow> P cur)"
    by (rule chunkLoop_chunks[OF run _ _ _ single multi]) auto
  with res have "\<forall>chunk \<in> set (fst (chunkCommits commits B)). P chunk" by auto
  then have 3: "\<forall>chunk \<in> set (fst (chunkCommits commits B)).
        int (length (chunkText chunk)) \<le> B
        \<or> (\<exists>c \<in> set commits.
              chunk = [c\<lparr>message := trimText (trimText (message c) (max 200 (B div 4)))
                                        (max 50 (B - 200)),
                         diffLines := []\<rparr>]
              \<and> B < int (length (chunkText chunk))
              \<and> B < int (length (formatCommitBlock (c\<lparr>diffLines := []\<rparr>))))"
    unfolding P_def .
  from 1 2 3 show ?thesis by blast
qed

lemma chunkCandidate_shape:
  assumes "chunkCandidate B c = (r, lg)"
  shows "r = c\<lparr>message := message r, diffLines := diffLines r\<rparr>
     \<and> (message r = message c \<or> (\<exists>k. message r = take k (message c) @ ''...''))
     \<and> (\<exists>n. diffLines r = take n (diffLines c))"
proof (cases "int (length (formatCommitBlock c)) > B")
  case True
  with assms have t: "truncateCommit c B = (r, lg)" by (simp add: chunkCandidate_def)
  from truncateCommit_shape(1,2,3)[OF t] show ?thesis by blast
next
  case False
  with assms have "r = c" by (simp add: chunkCandidate_def)
  then show ?thesis by (auto intro: exI[of _ "length (diffLines c)"])
qed

text \<open>
  C10. Every chunk is non-empty; the shas of the chunks, concatenated in order, are
  the shas of the commits in their order; and record by record, a record of the
  chunks is the commit at its place with at most its message and its diff lines
  replaced, the message by itself or by a prefix with an ellipsis, the diff lines by a
  prefix of them.
\<close>

theorem chunkCommits_keeps_every_sha:
  "(\<forall>chunk \<in> set (fst (chunkCommits commits B)). chunk \<noteq> [])
   \<and> map sha (concat (fst (chunkCommits commits B))) = map sha commits
   \<and> list_all2 (\<lambda>r c. r = c\<lparr>message := message r, diffLines := diffLines r\<rparr>
                        \<and> (message r = message c \<or> (\<exists>k. message r = take k (message c) @ ''...''))
                        \<and> (\<exists>n. diffLines r = take n (diffLines c)))
        (concat (fst (chunkCommits commits B))) commits"
proof -
  obtain chunks cur lg where run: "chunkLoop B commits [] [] 0 [] = (chunks, cur, lg)"
    by (cases "chunkLoop B commits [] [] 0 []") auto
  then have res: "fst (chunkCommits commits B) = (if cur \<noteq> [] then chunks @ [cur] else chunks)"
    by (simp add: chunkCommits_def)
  from chunkLoop_nonempty[OF run] have "[] \<notin> set chunks" by simp
  with res have 1: "\<forall>chunk \<in> set (fst (chunkCommits commits B)). chunk \<noteq> []" by auto
  from chunkLoop_concat[OF run] res
  have cc: "concat (fst (chunkCommits commits B)) = map (\<lambda>c. fst (chunkCandidate B c)) commits"
    by auto
  have shape: "\<And>c. fst (chunkCandidate B c) = c\<lparr>message := message (fst (chunkCandidate B c)), diffLines := diffLines (fst (chunkCandidate B c))\<rparr>
     \<and> (message (fst (chunkCandidate B c)) = message c \<or> (\<exists>k. message (fst (chunkCandidate B c)) = take k (message c) @ ''...''))
     \<and> (\<exists>n. diffLines (fst (chunkCandidate B c)) = take n (diffLines c))"
  proof -
    fix c
    obtain r l where rl: "chunkCandidate B c = (r, l)" by (cases "chunkCandidate B c") auto
    from chunkCandidate_shape[OF rl] rl show "?thesis c" by simp
  qed
  have sh: "\<And>c. sha (fst (chunkCandidate B c)) = sha c"
  proof -
    fix c
    from shape[of c] have "sha (fst (chunkCandidate B c)) = sha (c\<lparr>message := message (fst (chunkCandidate B c)), diffLines := diffLines (fst (chunkCandidate B c))\<rparr>)"
      by presburger
    then show "sha (fst (chunkCandidate B c)) = sha c" by simp
  qed
  from cc sh have 2: "map sha (concat (fst (chunkCommits commits B))) = map sha commits"
    by (simp add: comp_def)
  have 3: "list_all2 (\<lambda>r c. r = c\<lparr>message := message r, diffLines := diffLines r\<rparr>
                        \<and> (message r = message c \<or> (\<exists>k. message r = take k (message c) @ ''...''))
                        \<and> (\<exists>n. diffLines r = take n (diffLines c)))
        (concat (fst (chunkCommits commits B))) commits"
    unfolding cc list_all2_map1 by (rule list_all2_all_nthI) (use shape in auto)
  from 1 2 3 show ?thesis by blast
qed

text \<open>
  C1 as stated fails: with a budget of 1000, a commit with a message of 1300
  characters comes back with its message cut to 250, so the chunks no longer
  reproduce the original sequence.
\<close>

theorem chunkCommits_concat_counterexample:
  "fst (chunkCommits [commitLongMessage] 1000) =
     [[commitLongMessage\<lparr>message := replicate 247 (CHR ''m'') @ ''...''\<rparr>]]
   \<and> concat (fst (chunkCommits [commitLongMessage] 1000)) \<noteq> [commitLongMessage]"
proof -
  have a: "fst (chunkCommits [commitLongMessage] 1000) =
     [[commitLongMessage\<lparr>message := replicate 247 (CHR ''m'') @ ''...''\<rparr>]]"
    by code_simp
  have "length (message (commitLongMessage\<lparr>message := replicate 247 (CHR ''m'') @ ''...''\<rparr>)) \<noteq> length (message commitLongMessage)"
    by (simp add: commitLongMessage_def)
  then have "commitLongMessage\<lparr>message := replicate 247 (CHR ''m'') @ ''...''\<rparr> \<noteq> commitLongMessage"
    by metis
  with a show ?thesis by simp
qed

theorem chunkCommits_concat_and_size_witness:
  "chunkCommits [commitFirst, commitSecond] 200 = ([[commitFirst], [commitSecond]], [])
   \<and> int (length (formatCommitBlock commitFirst)) \<le> 200
   \<and> int (length (formatCommitBlock commitSecond)) \<le> 200
   \<and> concat (fst (chunkCommits [commitFirst, commitSecond] 200)) = [commitFirst, commitSecond]
   \<and> int (length (chunkText [commitFirst])) \<le> 200
   \<and> int (length (chunkText [commitSecond])) \<le> 200
   \<and> fst (chunkCommits [commitSecond] 100) = [[commitSecond]]
   \<and> int (length (chunkText [commitSecond])) = 137"
proof -
  have e: "chunkCommits [commitFirst, commitSecond] 200 = ([[commitFirst], [commitSecond]], [])"
    by code_simp
  have f1: "int (length (formatCommitBlock commitFirst)) \<le> 200" by code_simp
  have f2: "int (length (formatCommitBlock commitSecond)) \<le> 200" by code_simp
  have t1: "int (length (chunkText [commitFirst])) \<le> 200" by code_simp
  have t2: "int (length (chunkText [commitSecond])) \<le> 200" by code_simp
  have o1: "fst (chunkCommits [commitSecond] 100) = [[commitSecond]]" by code_simp
  have o2: "int (length (chunkText [commitSecond])) = 137" by code_simp
  from f1 f2 have fits:
    "\<forall>c \<in> set [commitFirst, commitSecond]. int (length (formatCommitBlock c)) \<le> 200"
    by simp
  from chunkCommits_concat_and_size[of "[commitFirst, commitSecond]" 200] fits
  have "concat (fst (chunkCommits [commitFirst, commitSecond] 200)) = [commitFirst, commitSecond]"
    by blast
  with e f1 f2 t1 t2 o1 o2 show ?thesis by blast
qed

theorem chunkCommits_keeps_every_sha_witness:
  "fst (chunkCommits [commitLongMessage, commitFirst, commitSecond] 1000) =
     [[commitLongMessage\<lparr>message := replicate 247 (CHR ''m'') @ ''...''\<rparr>, commitFirst, commitSecond]]
   \<and> map sha (concat (fst (chunkCommits [commitLongMessage, commitFirst, commitSecond] 1000))) =
       [''0123456789abcdef'', ''1111111aaaa'', ''2222222bbbb'']"
proof -
  have e: "fst (chunkCommits [commitLongMessage, commitFirst, commitSecond] 1000) =
     [[commitLongMessage\<lparr>message := replicate 247 (CHR ''m'') @ ''...''\<rparr>, commitFirst, commitSecond]]" by code_simp
  have s: "map sha [commitLongMessage, commitFirst, commitSecond] = [''0123456789abcdef'', ''1111111aaaa'', ''2222222bbbb'']"
    by (simp add: commitLongMessage_def commitFirst_def commitSecond_def)
  from chunkCommits_keeps_every_sha[of "[commitLongMessage, commitFirst, commitSecond]" 1000] s
  have "map sha (concat (fst (chunkCommits [commitLongMessage, commitFirst, commitSecond] 1000))) =
       [''0123456789abcdef'', ''1111111aaaa'', ''2222222bbbb'']" by simp
  with e show ?thesis by blast
qed

section \<open>Properties of the staged summarization\<close>

lemma generateResponseText_empty:
  assumes "client input instructions = Inr response" and "trim (extractResponseText response) = []"
  shows "generateResponseText client input instructions label =
     (Inl (Error (''Model response did not include text output ('' @ label @ '').'')),
      [(input, instructions)])"
  using assms by (simp add: generateResponseText_def Let_def)

lemma generateResponseText_text:
  assumes "client input instructions = Inr response" and "trim (extractResponseText response) \<noteq> []"
  shows "generateResponseText client input instructions label =
     (Inr (trim (extractResponseText response)), [(input, instructions)])"
  using assms by (simp add: generateResponseText_def Let_def)

lemma stageLoop_fails_at:
  assumes "i < length chunks"
    and "\<forall>j < i. \<exists>r. client (buildSummaryPrompt tag prev (chunks ! j)) stageInstructions = Inr r
                      \<and> trim (extractResponseText r) \<noteq> []"
    and "client (buildSummaryPrompt tag prev (chunks ! i)) stageInstructions = Inr response"
    and "trim (extractResponseText response) = []"
  shows "stageLoop client tag prev index chunks summaries =
     (Inl (Error (''Model response did not include text output ('' @
                  (''stage-'' @ showNat (index + i + 1)) @ '').'')),
      map (\<lambda>chunk. (buildSummaryPrompt tag prev chunk, stageInstructions)) (take (Suc i) chunks))"
  using assms
proof (induction chunks arbitrary: i index summaries)
  case Nil
  then show ?case by simp
next
  case (Cons chunk chunks)
  show ?case
  proof (cases i)
    case 0
    with Cons.prems(3,4) show ?thesis
      by (simp add: generateResponseText_empty)
  next
    case (Suc k)
    from Cons.prems(2) Suc obtain r where
      r: "client (buildSummaryPrompt tag prev chunk) stageInstructions = Inr r"
         "trim (extractResponseText r) \<noteq> []" by fastforce
    from Cons.prems(1) Suc have k: "k < length chunks" by simp
    from Cons.prems(2) Suc have prev:
      "\<forall>j < k. \<exists>r. client (buildSummaryPrompt tag prev (chunks ! j)) stageInstructions = Inr r
                      \<and> trim (extractResponseText r) \<noteq> []" by fastforce
    from Cons.prems(3) Suc have at:
      "client (buildSummaryPrompt tag prev (chunks ! k)) stageInstructions = Inr response" by simp
    from Cons.IH[OF k prev at Cons.prems(4), of "index + 1" "summaries @ [trim (extractResponseText r)]"]
    have "stageLoop client tag prev (index + 1) chunks (summaries @ [trim (extractResponseText r)]) =
     (Inl (Error (''Model response did not include text output ('' @
                  (''stage-'' @ showNat (index + 1 + k + 1)) @ '').'')),
      map (\<lambda>chunk. (buildSummaryPrompt tag prev chunk, stageInstructions)) (take (Suc k) chunks))" .
    with Suc r show ?thesis
      using generateResponseText_text[where client = client
          and input = "buildSummaryPrompt tag prev chunk" and instructions = stageInstructions
          and response = r and label = "''stage-'' @ showNat (index + 1)", OF r]
      by simp
  qed
qed

text \<open>
  C9. When the response of the summarizer has no text left after extraction and
  trimming, \<open>generateResponseText\<close> throws the error that names the label of the stage,
  after one submission. In the run this ends the summarization with that error: for the
  only submission of a prompt that fits the budget (label \<open>final\<close>); for batch \<open>i\<close> of
  the staged flow (label \<open>stage-(i+1)\<close>), where the submissions made are those of the
  batches up to \<open>i\<close>, each once, and nothing after; and for the final submission of the
  staged flow. No submission is made twice.
\<close>

theorem empty_response_is_fatal:
  assumes "trim (extractResponseText response) = []"
  shows "(client input instructions = Inr response \<longrightarrow>
            generateResponseText client input instructions label =
              (Inl (Error (''Model response did not include text output ('' @ label @ '').'')),
               [(input, instructions)]))
     \<and> (int (length (buildPrompt tag prev commits notes)) \<le> maxStageChars
          \<and> client (buildPrompt tag prev commits notes) finalInstructions = Inr response \<longrightarrow>
            runSummarization client tag prev commits notes maxStageChars =
              (Inl (Error ''Model response did not include text output (final).''),
               [(buildPrompt tag prev commits notes, finalInstructions)], []))
     \<and> (\<forall>chunks i. \<not> int (length (buildPrompt tag prev commits notes)) \<le> maxStageChars
          \<and> chunks = fst (chunkCommits commits (max 1000 (maxStageChars - 2000)))
          \<and> i < length chunks
          \<and> (\<forall>j < i. \<exists>r. client (buildSummaryPrompt tag prev (chunks ! j)) stageInstructions = Inr r
                          \<and> trim (extractResponseText r) \<noteq> [])
          \<and> client (buildSummaryPrompt tag prev (chunks ! i)) stageInstructions = Inr response \<longrightarrow>
            fst (runSummarization client tag prev commits notes maxStageChars) =
              Inl (Error (''Model response did not include text output (stage-'' @
                          showNat (i + 1) @ '').''))
            \<and> fst (snd (runSummarization client tag prev commits notes maxStageChars)) =
                map (\<lambda>chunk. (buildSummaryPrompt tag prev chunk, stageInstructions))
                    (take (Suc i) chunks))
     \<and> (\<forall>chunks summaries calls.
          \<not> int (length (buildPrompt tag prev commits notes)) \<le> maxStageChars
          \<and> chunks = fst (chunkCommits commits (max 1000 (maxStageChars - 2000)))
          \<and> stageLoop client tag prev 0 chunks [] = (Inr summaries, calls)
          \<and> client (buildFinalPrompt tag prev summaries notes) finalInstructions = Inr response \<longrightarrow>
            fst (runSummarization client tag prev commits notes maxStageChars) =
              Inl (Error ''Model response did not include text output (final).'')
            \<and> fst (snd (runSummarization client tag prev commits notes maxStageChars)) =
                calls @ [(buildFinalPrompt tag prev summaries notes, finalInstructions)])"
proof (intro conjI allI impI)
  assume "client input instructions = Inr response"
  with assms show "generateResponseText client input instructions label =
              (Inl (Error (''Model response did not include text output ('' @ label @ '').'')),
               [(input, instructions)])"
    by (simp add: generateResponseText_empty)
next
  assume a: "int (length (buildPrompt tag prev commits notes)) \<le> maxStageChars
          \<and> client (buildPrompt tag prev commits notes) finalInstructions = Inr response"
  then have "generateResponseText client (buildPrompt tag prev commits notes) finalInstructions ''final'' =
     (Inl (Error (''Model response did not include text output ('' @ ''final'' @ '').'')),
      [(buildPrompt tag prev commits notes, finalInstructions)])"
    using assms by (simp add: generateResponseText_empty)
  with a show "runSummarization client tag prev commits notes maxStageChars =
              (Inl (Error ''Model response did not include text output (final).''),
               [(buildPrompt tag prev commits notes, finalInstructions)], [])"
    by (simp add: runSummarization_def Let_def)
next
  fix chunks i
  assume a: "\<not> int (length (buildPrompt tag prev commits notes)) \<le> maxStageChars
          \<and> chunks = fst (chunkCommits commits (max 1000 (maxStageChars - 2000)))
          \<and> i < length chunks
          \<and> (\<forall>j < i. \<exists>r. client (buildSummaryPrompt tag prev (chunks ! j)) stageInstructions = Inr r
                          \<and> trim (extractResponseText r) \<noteq> [])
          \<and> client (buildSummaryPrompt tag prev (chunks ! i)) stageInstructions = Inr response"
  then have s: "stageLoop client tag prev 0 chunks [] =
     (Inl (Error (''Model response did not include text output ('' @
                  (''stage-'' @ showNat (0 + i + 1)) @ '').'')),
      map (\<lambda>chunk. (buildSummaryPrompt tag prev chunk, stageInstructions)) (take (Suc i) chunks))"
    using assms by (intro stageLoop_fails_at) auto
  obtain notices where c: "chunkCommits commits (max 1000 (maxStageChars - 2000)) = (chunks, notices)"
    using a by (cases "chunkCommits commits (max 1000 (maxStageChars - 2000))") auto
  from a s c show "fst (runSummarization client tag prev commits notes maxStageChars) =
              Inl (Error (''Model response did not include text output (stage-'' @
                          showNat (i + 1) @ '').''))"
    by (simp add: runSummarization_def Let_def)
  from a s c show "fst (snd (runSummarization client tag prev commits notes maxStageChars)) =
                map (\<lambda>chunk. (buildSummaryPrompt tag prev chunk, stageInstructions))
                    (take (Suc i) chunks)"
    by (simp add: runSummarization_def Let_def)
next
  fix chunks summaries calls
  assume a: "\<not> int (length (buildPrompt tag prev commits notes)) \<le> maxStageChars
          \<and> chunks = fst (chunkCommits commits (max 1000 (maxStageChars - 2000)))
          \<and> stageLoop client tag prev 0 chunks [] = (Inr summaries, calls)
          \<and> client (buildFinalPrompt tag prev summaries notes) finalInstructions = Inr response"
  then have g: "generateResponseText client (buildFinalPrompt tag prev summaries notes) finalInstructions ''final'' =
     (Inl (Error (''Model response did not include text output ('' @ ''final'' @ '').'')),
      [(buildFinalPrompt tag prev summaries notes, finalInstructions)])"
    using assms by (simp add: generateResponseText_empty)
  obtain notices where c: "chunkCommits commits (max 1000 (maxStageChars - 2000)) = (chunks, notices)"
    using a by (cases "chunkCommits commits (max 1000 (maxStageChars - 2000))") auto
  from a g c show "fst (runSummarization client tag prev commits notes maxStageChars) =
              Inl (Error ''Model response did not include text output (final).'')"
    by (simp add: runSummarization_def Let_def)
  from a g c show "fst (snd (runSummarization client tag prev commits notes maxStageChars)) =
                calls @ [(buildFinalPrompt tag prev summaries notes, finalInstructions)]"
    by (simp add: runSummarization_def Let_def)
qed

theorem empty_response_is_fatal_witness:
  "generateResponseText blankClient ''prompt'' ''instructions'' ''stage-3'' =
     (Inl (Error ''Model response did not include text output (stage-3).''),
      [(''prompt'', ''instructions'')])
   \<and> runSummarization blankClient ''v1.1.0'' ''v1.0.0'' [commitFirst, commitSecond] [] 400000 =
     (Inl (Error ''Model response did not include text output (final).''),
      [(buildPrompt ''v1.1.0'' ''v1.0.0'' [commitFirst, commitSecond] [], finalInstructions)], [])
   \<and> fst (runSummarization blankClient ''v1.1.0'' ''v1.0.0'' [commitFirst, commitSecond] [] 100) =
     Inl (Error ''Model response did not include text output (stage-1).'')
   \<and> fst (snd (runSummarization blankClient ''v1.1.0'' ''v1.0.0'' [commitFirst, commitSecond] [] 100)) =
     [(buildSummaryPrompt ''v1.1.0'' ''v1.0.0'' [commitFirst, commitSecond], stageInstructions)]"
proof -
  let ?blank = "\<lparr>output_text = Some '' '', output_items = Some []\<rparr>"
  let ?commits = "[commitFirst, commitSecond]"
  have e: "trim (extractResponseText ?blank) = []" by code_simp
  have c: "\<And>input instructions. blankClient input instructions = Inr ?blank"
    by (simp add: blankClient_def)
  have fits: "int (length (buildPrompt ''v1.1.0'' ''v1.0.0'' ?commits [])) \<le> 400000" by code_simp
  have over: "\<not> int (length (buildPrompt ''v1.1.0'' ''v1.0.0'' ?commits [])) \<le> 100" by code_simp
  have chunks: "[?commits] = fst (chunkCommits ?commits (max 1000 (100 - 2000)))" by code_simp
  have n: "showNat (0 + 1) = ''1''" by code_simp
  note t = empty_response_is_fatal[OF e]
  from t[of blankClient "''prompt''" "''instructions''" "''stage-3''"] c
  have 1: "generateResponseText blankClient ''prompt'' ''instructions'' ''stage-3'' =
     (Inl (Error ''Model response did not include text output (stage-3).''),
      [(''prompt'', ''instructions'')])" by simp
  from t[of blankClient _ _ _ "''v1.1.0''" "''v1.0.0''" ?commits "[]" 400000] c fits
  have 2: "runSummarization blankClient ''v1.1.0'' ''v1.0.0'' ?commits [] 400000 =
     (Inl (Error ''Model response did not include text output (final).''),
      [(buildPrompt ''v1.1.0'' ''v1.0.0'' ?commits [], finalInstructions)], [])" by blast
  from t[of blankClient _ _ _ "''v1.1.0''" "''v1.0.0''" ?commits "[]" 100]
  have "\<forall>chunks i. \<not> int (length (buildPrompt ''v1.1.0'' ''v1.0.0'' ?commits [])) \<le> 100
          \<and> chunks = fst (chunkCommits ?commits (max 1000 (100 - 2000)))
          \<and> i < length chunks
          \<and> (\<forall>j < i. \<exists>r. blankClient (buildSummaryPrompt ''v1.1.0'' ''v1.0.0'' (chunks ! j)) stageInstructions = Inr r
                          \<and> trim (extractResponseText r) \<noteq> [])
          \<and> blankClient (buildSummaryPrompt ''v1.1.0'' ''v1.0.0'' (chunks ! i)) stageInstructions = Inr ?blank \<longrightarrow>
            fst (runSummarization blankClient ''v1.1.0'' ''v1.0.0'' ?commits [] 100) =
              Inl (Error (''Model response did not include text output (stage-'' @
                          showNat (i + 1) @ '').''))
            \<and> fst (snd (runSummarization blankClient ''v1.1.0'' ''v1.0.0'' ?commits [] 100)) =
                map (\<lambda>chunk. (buildSummaryPrompt ''v1.1.0'' ''v1.0.0'' chunk, stageInstructions))
                    (take (Suc i) chunks)"
    by blast
  note inst = this[rule_format, of "[?commits]" 0]
  have p3: "0 < length [?commits]" by simp
  have p4: "\<forall>j < (0::nat). \<exists>r. blankClient (buildSummaryPrompt ''v1.1.0'' ''v1.0.0'' ([?commits] ! j)) stageInstructions = Inr r
                          \<and> trim (extractResponseText r) \<noteq> []" by simp
  have p5: "blankClient (buildSummaryPrompt ''v1.1.0'' ''v1.0.0'' ([?commits] ! 0)) stageInstructions = Inr ?blank"
    by (rule c)
  have "fst (runSummarization blankClient ''v1.1.0'' ''v1.0.0'' ?commits [] 100) =
              Inl (Error (''Model response did not include text output (stage-'' @
                          showNat (0 + 1) @ '').''))
            \<and> fst (snd (runSummarization blankClient ''v1.1.0'' ''v1.0.0'' ?commits [] 100)) =
                map (\<lambda>chunk. (buildSummaryPrompt ''v1.1.0'' ''v1.0.0'' chunk, stageInstructions))
                    (take (Suc 0) [?commits])"
    by (rule inst) (intro conjI over chunks p3 p4 p5)
  then have 3: "fst (runSummarization blankClient ''v1.1.0'' ''v1.0.0'' ?commits [] 100) =
     Inl (Error ''Model response did not include text output (stage-1).'')
   \<and> fst (snd (runSummarization blankClient ''v1.1.0'' ''v1.0.0'' ?commits [] 100)) =
     [(buildSummaryPrompt ''v1.1.0'' ''v1.0.0'' ?commits, stageInstructions)]"
    unfolding n by simp
  from 1 2 3 show ?thesis by blast
qed

section \<open>Properties of the prompt builder\<close>

text \<open>
  C8. \<open>buildPrompt\<close> and \<open>formatCommitBlock\<close> read nothing but their arguments (no
  clock, no tool, no summarizer: the embedding gives them no such parameter, as the
  source calls none), so two invocations on identical inputs give the identical
  string.
\<close>

theorem buildPrompt_deterministic:
  assumes "currentTag = currentTag'" and "previousTag = previousTag'"
    and "commits = commits'" and "githubNotes = githubNotes'"
  shows "buildPrompt currentTag previousTag commits githubNotes =
         buildPrompt currentTag' previousTag' commits' githubNotes'
     \<and> map formatCommitBlock commits = map formatCommitBlock commits'"
  using assms by simp

theorem buildPrompt_deterministic_witness:
  "buildPrompt ''v1.1.0'' ''v1.0.0'' [commitSecond] ''notes'' =
     buildPrompt ''v1.1.0'' ''v1.0.0'' [commitSecond] ''notes''
   \<and> buildPrompt ''v1.1.0'' ''v1.0.0'' [commitSecond] ''notes'' =
     join [LF]
       [''Release tag: v1.1.0'',
        ''Previous tag: v1.0.0'',
        ''Commit count: 1'',
        ''Commit 2222222'',
        ''The following changes had this commit message:'',
        ''fix: second'',
        [],
        ''The changes in this commit were:'',
        ''- (No diff content available)'',
        [],
        ''GitHub auto-generated notes (extra context, do not quote verbatim):'',
        ''notes'']"
proof -
  have r: "buildPrompt ''v1.1.0'' ''v1.0.0'' [commitSecond] ''notes'' =
     join [LF]
       [''Release tag: v1.1.0'',
        ''Previous tag: v1.0.0'',
        ''Commit count: 1'',
        ''Commit 2222222'',
        ''The following changes had this commit message:'',
        ''fix: second'',
        [],
        ''The changes in this commit were:'',
        ''- (No diff content available)'',
        [],
        ''GitHub auto-generated notes (extra context, do not quote verbatim):'',
        ''notes'']" by code_simp
  from buildPrompt_deterministic[of "''v1.1.0''" "''v1.1.0''" "''v1.0.0''" "''v1.0.0''"
      "[commitSecond]" "[commitSecond]" "''notes''" "''notes''"]
  have "buildPrompt ''v1.1.0'' ''v1.0.0'' [commitSecond] ''notes'' =
     buildPrompt ''v1.1.0'' ''v1.0.0'' [commitSecond] ''notes''" by simp
  with r show ?thesis by blast
qed

end
